theory Spec2Isabelle
  imports Complex_Main
begin

section \<open>The rSAS Runge-Kutta solver of \<^verbatim>\<open>src/rsas/_rsas.pyx\<close>\<close>

text \<open>
  The solver \<^verbatim>\<open>_solve_RK4\<close> advances age-ranked storage, cumulative transit time
  distributions and age-ranked solute mass through substeps of a timestep. This theory
  embeds it as HOL functions over lists.

  Conventions of the embedding.
  \<^item> A \<^verbatim>\<open>float64\<close> is a \<open>real\<close>: in the solver itself arithmetic is exact, and
    rounding, overflow, NaN and Inf are not represented. A division that numpy
    evaluates although its divisor may be zero (the quotient under \<^verbatim>\<open>np.where\<close>, the
    scalar quotient added to \<^verbatim>\<open>C_Q\<close>) is modelled with \<open>real option\<close>. The operations
    whose result depends on rounding, the refinement of the initial profile and the
    running sum of the output distribution, are modelled a second time with the
    rounding of \<^verbatim>\<open>float64\<close>, in the section on \<^verbatim>\<open>float64\<close> arithmetic below.
  \<^item> A 1-D array is a \<open>real list\<close>. Arrays of higher rank are nested lists with the age
    axis innermost: \<^verbatim>\<open>PQ1[a,q]\<close> is \<open>PQ1 ! q ! a\<close>, \<^verbatim>\<open>mQ1[a,q,s]\<close> is \<open>mQ1 ! q ! s ! a\<close>,
    \<^verbatim>\<open>ST[a,t]\<close> is \<open>ST ! t ! a\<close>, \<^verbatim>\<open>PQ[a,t,q]\<close> is \<open>PQ ! t ! q ! a\<close>. The inputs keep
    the source's order: \<^verbatim>\<open>Q[i,q]\<close> is \<open>Q ! i ! q\<close>, \<^verbatim>\<open>alpha[i,q,s]\<close> is \<open>alpha ! i ! q ! s\<close>.
  \<^item> An rSAS function object is modelled by its method \<^verbatim>\<open>cdf_i\<close>, a function from a
    storage profile and a time index to an array.
\<close>

subsection \<open>Array operations of numpy used by the solver\<close>

type_synonym sas = "real list \<Rightarrow> nat \<Rightarrow> real list"

text \<open>\<^verbatim>\<open>np.diff(x)\<close>: differences of neighbours, one element shorter.\<close>

fun np_diff :: "real list \<Rightarrow> real list" where
  "np_diff (x # y # xs) = (y - x) # np_diff (y # xs)"
| "np_diff xs = []"

text \<open>\<^verbatim>\<open>np.cumsum(x)\<close>, with the running total as accumulator.\<close>

fun cumsum_from :: "real \<Rightarrow> real list \<Rightarrow> real list" where
  "cumsum_from acc [] = []"
| "cumsum_from acc (x # xs) = (acc + x) # cumsum_from (acc + x) xs"

definition np_cumsum :: "real list \<Rightarrow> real list" where
  "np_cumsum xs = cumsum_from 0 xs"

text \<open>\<^verbatim>\<open>x.repeat(n, axis=0)\<close>: each element n times.\<close>

definition np_repeat :: "nat \<Rightarrow> real list \<Rightarrow> real list" where
  "np_repeat n xs = concat (map (replicate n) xs)"

text \<open>\<^verbatim>\<open>np.roll(x, 1)\<close>: the last element moves to the front.\<close>

definition np_roll1 :: "real list \<Rightarrow> real list" where
  "np_roll1 xs = (if xs = [] then [] else last xs # butlast xs)"

text \<open>The slice \<^verbatim>\<open>x[lo:hi]\<close>, cut off at the end of the array as numpy does.\<close>

definition slice :: "nat \<Rightarrow> nat \<Rightarrow> 'a list \<Rightarrow> 'a list" where
  "slice lo hi xs = take (hi - lo) (drop lo xs)"

text \<open>\<^verbatim>\<open>np.zeros\<close> of rank 1, 2 and 3.\<close>

definition zeros :: "nat \<Rightarrow> real list" where
  "zeros n = replicate n 0"

definition zeros2 :: "nat \<Rightarrow> nat \<Rightarrow> real list list" where
  "zeros2 m n = replicate m (zeros n)"

definition zeros3 :: "nat \<Rightarrow> nat \<Rightarrow> nat \<Rightarrow> real list list list" where
  "zeros3 l m n = replicate l (zeros2 m n)"

text \<open>The slice \<^verbatim>\<open>x[0:len(x):n]\<close> for a positive step n.\<close>

definition strided :: "nat \<Rightarrow> real list \<Rightarrow> real list" where
  "strided n xs = map (\<lambda>a. xs ! (a * n)) [0..<(length xs + n - 1) div n]"

text \<open>\<^verbatim>\<open>np.dot(Q[i,:], P.T)[a]\<close> for \<open>P\<close> of shape (ages, numflux).\<close>

definition np_dot :: "real list \<Rightarrow> real list list \<Rightarrow> nat \<Rightarrow> real" where
  "np_dot Qi P a = (\<Sum>q\<leftarrow>[0..<length Qi]. Qi ! q * P ! q ! a)"

text \<open>
  Elementwise division as numpy evaluates it on whole arrays: every quotient is
  computed, and a zero divisor gives inf or nan (with a RuntimeWarning, not an
  exception), written \<open>None\<close> here.
\<close>

definition np_divide :: "real list \<Rightarrow> real list \<Rightarrow> real option list" where
  "np_divide xs ys = map (\<lambda>(x, y). if y = 0 then None else Some (x / y)) (zip xs ys)"

text \<open>\<^verbatim>\<open>np.where(c, x, d)\<close> with a scalar \<open>d\<close>: selects among values already computed.\<close>

definition np_where :: "bool list \<Rightarrow> real option list \<Rightarrow> real \<Rightarrow> real option list" where
  "np_where cs xs d = map (\<lambda>(c, x). if c then x else Some d) (zip cs xs)"

text \<open>
  Storing a selected array into a \<^verbatim>\<open>float64\<close> buffer. A non-finite entry has no real
  value; \<open>stored\<close> maps it to 0, and \<open>nth_mQ_col\<close> and \<open>nth_C_Q_step\<close> below show that
  the solver never stores one.
\<close>

definition stored :: "real option list \<Rightarrow> real list" where
  "stored xs = map (\<lambda>x. case x of Some r \<Rightarrow> r | None \<Rightarrow> 0) xs"

subsection \<open>The building blocks of a Runge-Kutta stage\<close>

text \<open>
  Lines 376-377 and their repetitions: \<^verbatim>\<open>pQt[1:,:] = np.diff(PQj[0:M,:], axis=0)\<close> and
  \<^verbatim>\<open>pQt[0,:] = P[0,:]\<close>, for one outflow column. The source takes \<open>P\<close> to be \<^verbatim>\<open>PQ1\<close>
  in stage 1 and \<^verbatim>\<open>PQ2\<close> in stages 2, 3 and 4. The same pattern turns a trial storage
  profile into its age increments (lines 389-390).
\<close>

definition increments :: "nat \<Rightarrow> real \<Rightarrow> real list \<Rightarrow> real list" where
  "increments M front col = front # np_diff (take M col)"

definition density :: "nat \<Rightarrow> real list list \<Rightarrow> real list list \<Rightarrow> real list list" where
  "density M P PQj = map (\<lambda>q. increments M (P ! q ! 0) (PQj ! q)) [0..<length PQj]"

text \<open>
  Line 380 and its repetitions, for one outflow and one solute:
  \<^verbatim>\<open>np.where(sTt>0, mS[:,s] * alpha[i,q,s] * Q[i,q] * pQt[:,q] / sTt, 0.)\<close>.
  The quotient array is evaluated first, for every age; the selection follows.
\<close>

definition mQ_numerator :: "real list \<Rightarrow> real \<Rightarrow> real \<Rightarrow> real list \<Rightarrow> real list" where
  "mQ_numerator mS al Qq pQ = map (\<lambda>(m, p). m * al * Qq * p) (zip mS pQ)"

definition mQ_quotient :: "real list \<Rightarrow> real list \<Rightarrow> real \<Rightarrow> real \<Rightarrow> real list \<Rightarrow> real option list" where
  "mQ_quotient sT mS al Qq pQ = np_divide (mQ_numerator mS al Qq pQ) sT"

definition mQ_col :: "real list \<Rightarrow> real list \<Rightarrow> real \<Rightarrow> real \<Rightarrow> real list \<Rightarrow> real option list" where
  "mQ_col sT mS al Qq pQ = np_where (map (\<lambda>x. 0 < x) sT) (mQ_quotient sT mS al Qq pQ) 0"

definition mQ_stage ::
  "real list \<Rightarrow> real list list \<Rightarrow> real list list \<Rightarrow> real list \<Rightarrow> real list list \<Rightarrow> real list list list"
where
  "mQ_stage sT mS al Qi pQ =
     map (\<lambda>q. map (\<lambda>s. stored (mQ_col sT (mS ! s) (al ! q ! s) (Qi ! q) (pQ ! q)))
                [0..<length mS])
         [0..<length Qi]"

text \<open>
  Line 381 and its repetitions:
  \<^verbatim>\<open>STt[:] = np.maximum(0., STp + (J[i] - np.dot(Q[i,:], PQj.T)) * h/2)\<close>.
\<close>

definition trial_ST :: "real list \<Rightarrow> real \<Rightarrow> real list \<Rightarrow> real list list \<Rightarrow> real \<Rightarrow> real list" where
  "trial_ST prev Ji Qi PQj h =
     map (\<lambda>a. max 0 (prev ! a + (Ji - np_dot Qi PQj a) * h / 2)) [0..<length prev]"

text \<open>Line 383 and its repetitions: \<^verbatim>\<open>mRj[:,s] = k1[i,s] * (C_eq[i,s] * sTt - mS[:,s])\<close>.\<close>

definition mR_stage :: "real list \<Rightarrow> real list \<Rightarrow> real list \<Rightarrow> real list list \<Rightarrow> real list list" where
  "mR_stage k1i Ceqi sT mS =
     map (\<lambda>s. map (\<lambda>a. k1i ! s * (Ceqi ! s * sT ! a - mS ! s ! a)) [0..<length sT])
         [0..<length mS]"

text \<open>\<^verbatim>\<open>x[0] += v\<close>.\<close>

definition add_at0 :: "real \<Rightarrow> real list \<Rightarrow> real list" where
  "add_at0 v xs = xs[0 := xs ! 0 + v]"

text \<open>
  Lines 384-385 and their repetitions:
  \<^verbatim>\<open>mSt[:,s] = mSp[:,s] - np.sum(mQj[:,:,s], axis=1) * h/2 + mRj[:,s] * h/2\<close> followed by
  \<^verbatim>\<open>mSt[0,s] += J[i] * C_J[i,s] * w\<close>, where the source writes \<open>w = h/2\<close> in stages 1 and 2
  and \<open>w = h\<close> in stage 3.
\<close>

definition trial_mS ::
  "real list list \<Rightarrow> real list list list \<Rightarrow> real list list \<Rightarrow> real \<Rightarrow> real \<Rightarrow> real list \<Rightarrow> real \<Rightarrow> real list list"
where
  "trial_mS mSprev mQj mRj h Ji CJi w =
     map (\<lambda>s. add_at0 (Ji * CJi ! s * w)
                 (map (\<lambda>a. mSprev ! s ! a - (\<Sum>q\<leftarrow>[0..<length mQj]. mQj ! q ! s ! a) * h / 2
                            + mRj ! s ! a * h / 2)
                      [0..<length (mSprev ! s)]))
         [0..<length mSprev]"

subsection \<open>Arguments and dimensions\<close>

text \<open>
  The arguments of \<^verbatim>\<open>_solve_RK4\<close>. An argument whose default is \<^verbatim>\<open>None\<close> and that the
  caller \<^verbatim>\<open>solve\<close> does not fill in is an \<open>option\<close>. \<^verbatim>\<open>solve\<close> always fills in
  \<^verbatim>\<open>alpha\<close>, \<^verbatim>\<open>k1\<close> and \<^verbatim>\<open>C_eq\<close> when \<^verbatim>\<open>C_J\<close> is given, and they are not read otherwise.
  \<^verbatim>\<open>CS_init[a,s]\<close> is \<open>CS_init ! a ! s\<close>, \<^verbatim>\<open>C_J[i,s]\<close> is \<open>C_J ! i ! s\<close>. The substep count is
  a natural number: a negative count is not represented.
\<close>

record args =
  J :: "real list"
  Q :: "real list list"
  rSAS_fun :: "sas list"
  ST_init :: "real list option"
  dt :: real
  n_substeps :: nat
  full_outputs :: bool
  CS_init :: "real list list option"
  C_J :: "real list list option"
  alpha :: "real list list list"
  k1 :: "real list list"
  C_eq :: "real list list"
  C_old :: "real list option"

text \<open>
  \<^verbatim>\<open>numflux = Q.shape[1]\<close>, \<^verbatim>\<open>timeseries_length = len(J)\<close>, \<^verbatim>\<open>max_age = len(ST_init) - 1\<close>,
  \<^verbatim>\<open>M = max_age * n_substeps\<close>, \<^verbatim>\<open>h = dt / n_substeps\<close>, \<^verbatim>\<open>numsol = C_J.shape[1]\<close> or 0.
  The second dimension of a nested list is read off its first row. An array \<^verbatim>\<open>Q\<close> without
  rows keeps its second dimension, which a list of rows does not; \<^verbatim>\<open>solve\<close> has
  checked that \<^verbatim>\<open>Q.shape[1]\<close> is the number of rSAS functions, and that number is taken
  then.
\<close>

definition numflux :: "args \<Rightarrow> nat" where
  "numflux p = (case Q p of [] \<Rightarrow> length (rSAS_fun p) | r # rs \<Rightarrow> length r)"

definition timeseries_length :: "args \<Rightarrow> nat" where
  "timeseries_length p = length (J p)"

definition max_age :: "args \<Rightarrow> nat" where
  "max_age p = (case ST_init p of None \<Rightarrow> 0 | Some st0 \<Rightarrow> length st0 - 1)"

definition M_len :: "args \<Rightarrow> nat" where
  "M_len p = max_age p * n_substeps p"

definition h_sub :: "args \<Rightarrow> real" where
  "h_sub p = dt p / real (n_substeps p)"

definition numsol :: "args \<Rightarrow> nat" where
  "numsol p = (case C_J p of None \<Rightarrow> 0 | Some [] \<Rightarrow> 0 | Some (r # rs) \<Rightarrow> length r)"

definition C_J_row :: "args \<Rightarrow> nat \<Rightarrow> real list" where
  "C_J_row p i = (case C_J p of None \<Rightarrow> [] | Some c \<Rightarrow> c ! i)"

subsection \<open>The state of the solver\<close>

text \<open>
  The buffers that carry values from one substep to the next, and the output arrays.
  \<open>STn\<close> and \<open>STp\<close> are the two storage buffers whose names the source swaps at the
  start of each substep. The output arrays are allocated in full, with zeros, as the
  source does, and written by index. The arrays \<^verbatim>\<open>MS\<close>, \<^verbatim>\<open>MQ\<close>, \<^verbatim>\<open>MR\<close> and
  \<^verbatim>\<open>SoluteBalance\<close> are only written, never read back by the water or concentration
  computation, and are left out.
\<close>

record state =
  STn :: "real list"
  STp :: "real list"
  sTn :: "real list"
  PQn :: "real list list"
  mSn :: "real list list"
  mSp :: "real list list"
  ST :: "real list list"
  PQ :: "real list list list"
  WaterBalance :: "real list list"
  C_Q :: "real list list list"

text \<open>
  The arrays one Runge-Kutta stage computes: the cumulative distributions \<^verbatim>\<open>PQ1\<close> to
  \<^verbatim>\<open>PQ4\<close>, the fluxes \<^verbatim>\<open>mQ1\<close> to \<^verbatim>\<open>mQ4\<close>, the reaction terms \<^verbatim>\<open>mR1\<close> to \<^verbatim>\<open>mR4\<close>, and the
  values the shared buffers \<^verbatim>\<open>sTt\<close>, \<^verbatim>\<open>pQt\<close>, \<^verbatim>\<open>STt\<close> and \<^verbatim>\<open>mSt\<close> hold at the end of the
  stage.
\<close>

record stage =
  PQj :: "real list list"
  sTt :: "real list"
  pQt :: "real list list"
  mQj :: "real list list list"
  STt :: "real list"
  mRj :: "real list list"
  mSt :: "real list list"

text \<open>\<^verbatim>\<open>for q in range(numflux): PQj[:,q] = rSAS_fun[q].cdf_i(S, i)\<close>.\<close>

definition cdf_cols :: "args \<Rightarrow> nat \<Rightarrow> real list \<Rightarrow> real list list" where
  "cdf_cols p i S = map (\<lambda>q. (rSAS_fun p ! q) S i) [0..<numflux p]"

subsection \<open>The four stages (lines 373-427)\<close>

definition K1 :: "args \<Rightarrow> nat \<Rightarrow> state \<Rightarrow> stage" where
  "K1 p i st =
    (let PQ1 = cdf_cols p i (STp st);
         sT1 = (np_roll1 (sTn st))[0 := h_sub p * J p ! i];
         pQ1 = density (M_len p) PQ1 PQ1;
         mQ1 = mQ_stage sT1 (mSp st) (alpha p ! i) (Q p ! i) pQ1;
         mR1 = mR_stage (k1 p ! i) (C_eq p ! i) sT1 (mSp st)
     in \<lparr> PQj = PQ1, sTt = sT1, pQt = pQ1, mQj = mQ1,
          STt = trial_ST (STp st) (J p ! i) (Q p ! i) PQ1 (h_sub p),
          mRj = mR1,
          mSt = trial_mS (mSp st) mQ1 mR1 (h_sub p) (J p ! i) (C_J_row p i) (h_sub p / 2) \<rparr>)"

definition K2 :: "args \<Rightarrow> nat \<Rightarrow> state \<Rightarrow> stage" where
  "K2 p i st =
    (let s1 = K1 p i st;
         PQ2 = cdf_cols p i (STt s1);
         sT2 = increments (M_len p) (STt s1 ! 0) (STt s1);
         pQ2 = density (M_len p) PQ2 PQ2;
         mQ2 = mQ_stage sT2 (mSt s1) (alpha p ! i) (Q p ! i) pQ2;
         mR2 = mR_stage (k1 p ! i) (C_eq p ! i) sT2 (mSt s1)
     in \<lparr> PQj = PQ2, sTt = sT2, pQt = pQ2, mQj = mQ2,
          STt = trial_ST (STp st) (J p ! i) (Q p ! i) PQ2 (h_sub p),
          mRj = mR2,
          mSt = trial_mS (mSp st) mQ2 mR2 (h_sub p) (J p ! i) (C_J_row p i) (h_sub p / 2) \<rparr>)"

text \<open>Stages 3 and 4 set \<^verbatim>\<open>pQt[0,:] = PQ2[0,:]\<close> (lines 407 and 422).\<close>

definition K3 :: "args \<Rightarrow> nat \<Rightarrow> state \<Rightarrow> stage" where
  "K3 p i st =
    (let s2 = K2 p i st;
         PQ3 = cdf_cols p i (STt s2);
         sT3 = increments (M_len p) (STt s2 ! 0) (STt s2);
         pQ3 = density (M_len p) (PQj s2) PQ3;
         mQ3 = mQ_stage sT3 (mSt s2) (alpha p ! i) (Q p ! i) pQ3;
         mR3 = mR_stage (k1 p ! i) (C_eq p ! i) sT3 (mSt s2)
     in \<lparr> PQj = PQ3, sTt = sT3, pQt = pQ3, mQj = mQ3,
          STt = trial_ST (STp st) (J p ! i) (Q p ! i) PQ3 (h_sub p),
          mRj = mR3,
          mSt = trial_mS (mSp st) mQ3 mR3 (h_sub p) (J p ! i) (C_J_row p i) (h_sub p) \<rparr>)"

text \<open>Stage 4 computes no further trial profile: \<open>STt\<close> and \<open>mSt\<close> stay those of stage 3.\<close>

definition K4 :: "args \<Rightarrow> nat \<Rightarrow> state \<Rightarrow> stage" where
  "K4 p i st =
    (let s2 = K2 p i st;
         s3 = K3 p i st;
         PQ4 = cdf_cols p i (STt s3);
         sT4 = increments (M_len p) (STt s3 ! 0) (STt s3);
         pQ4 = density (M_len p) (PQj s2) PQ4;
         mQ4 = mQ_stage sT4 (mSt s3) (alpha p ! i) (Q p ! i) pQ4;
         mR4 = mR_stage (k1 p ! i) (C_eq p ! i) sT4 (mSt s3)
     in \<lparr> PQj = PQ4, sTt = sT4, pQt = pQ4, mQj = mQ4,
          STt = STt s3, mRj = mR4, mSt = mSt s3 \<rparr>)"

subsection \<open>Finishing a substep (lines 429-455)\<close>

text \<open>The Runge-Kutta mean \<^verbatim>\<open>(x1 + 2*x2 + 2*x3 + x4) / 6.\<close> of four arrays of one shape.\<close>

definition rk4_mean :: "real list \<Rightarrow> real list \<Rightarrow> real list \<Rightarrow> real list \<Rightarrow> real list" where
  "rk4_mean x1 x2 x3 x4 =
     map (\<lambda>a. (x1 ! a + 2 * x2 ! a + 2 * x3 ! a + x4 ! a) / 6) [0..<length x1]"

text \<open>
  Lines 429-432: \<^verbatim>\<open>PQn[1:M+1,:] = (PQ1 + 2*PQ2 + 2*PQ3 + PQ4)[:M,:] / 6.\<close>, row 0 of the
  buffer staying as it was, and then \<^verbatim>\<open>PQn[:,q] = 0.\<close> for each outflow with
  \<^verbatim>\<open>Q[i,q]==0\<close>.
\<close>

definition new_PQn ::
  "nat \<Rightarrow> real list \<Rightarrow> real list list \<Rightarrow> stage \<Rightarrow> stage \<Rightarrow> stage \<Rightarrow> stage \<Rightarrow> real list list"
where
  "new_PQn M Qi old s1 s2 s3 s4 =
     map (\<lambda>q. if Qi ! q = 0 then map (\<lambda>x. 0) (old ! q)
               else old ! q ! 0 #
                    take M (rk4_mean (PQj s1 ! q) (PQj s2 ! q) (PQj s3 ! q) (PQj s4 ! q)))
         [0..<length old]"

text \<open>
  Line 433: \<^verbatim>\<open>STn[1:M+1] = STp[0:M] + h * (J[i] - np.dot(Q[i,:], PQn[1:M+1,:].T))\<close>; entry 0
  of the buffer stays as it was. No maximum is taken here.
\<close>

definition new_STn ::
  "nat \<Rightarrow> real \<Rightarrow> real \<Rightarrow> real list \<Rightarrow> real list \<Rightarrow> real list \<Rightarrow> real list list \<Rightarrow> real list"
where
  "new_STn M h Ji Qi buf prev PQnew =
     buf ! 0 #
     map (\<lambda>a. prev ! a + h * (Ji - np_dot Qi (map (slice 1 (M + 1)) PQnew) a)) [0..<M]"

text \<open>
  Lines 440-443: \<^verbatim>\<open>mSn[:,s] = mSp[:,s] + mRn[:,s] * h\<close>, \<^verbatim>\<open>mSn[0,s] += J[i] * C_J[i,s] * h\<close>
  and, for each outflow in turn, \<^verbatim>\<open>mSn[:,s] += - mQn[:,q,s] * h\<close>.
\<close>

definition new_mSn ::
  "real \<Rightarrow> real \<Rightarrow> real list \<Rightarrow> real list list \<Rightarrow> real list list \<Rightarrow> real list list list \<Rightarrow> real list list"
where
  "new_mSn h Ji CJi mSprev mRn mQn =
     map (\<lambda>s. foldl (\<lambda>col q. map (\<lambda>a. col ! a + - (mQn ! q ! s ! a) * h) [0..<length col])
                 (add_at0 (Ji * CJi ! s * h)
                    (map (\<lambda>a. mSprev ! s ! a + mRn ! s ! a * h) [0..<length (mSprev ! s)]))
                 [0..<length mQn])
         [0..<length mSprev]"

text \<open>
  The quotient \<^verbatim>\<open>x / y\<close> of a numpy scalar \<open>x\<close>: as for arrays, a zero divisor gives inf
  or nan (with a RuntimeWarning, not an exception), written \<open>None\<close>.
\<close>

definition scalar_divide :: "real \<Rightarrow> real \<Rightarrow> real option" where
  "scalar_divide x y = (if y = 0 then None else Some (x / y))"

text \<open>
  Lines 444-445, for all outflows and solutes:
  \<^verbatim>\<open>if Q[i,q]>0: C_Q[i,q,s] += np.sum(mQn[:,q,s]) / Q[i,q] / n_substeps\<close>.
  \<open>C_Q_term\<close> is the term added, with its two divisions in the order of the source.
  \<open>C_Q_step\<close> is what the statement leaves in each entry of \<^verbatim>\<open>C_Q[i,:,:]\<close>: \<open>None\<close> if
  it has divided by zero, and the entry as it was if the guard has skipped the
  statement. \<open>add_C_Q\<close> is the row as it is stored.
\<close>

definition C_Q_term :: "nat \<Rightarrow> real \<Rightarrow> real list \<Rightarrow> real option" where
  "C_Q_term n Qq col =
     (case scalar_divide (sum_list col) Qq of
        None \<Rightarrow> None
      | Some x \<Rightarrow> scalar_divide x (real n))"

definition C_Q_step ::
  "nat \<Rightarrow> real list \<Rightarrow> real list list list \<Rightarrow> real list list \<Rightarrow> real option list list"
where
  "C_Q_step n Qi mQn row =
     map (\<lambda>q. map (\<lambda>s. if 0 < Qi ! q
                         then (case C_Q_term n (Qi ! q) (mQn ! q ! s) of
                                 None \<Rightarrow> None
                               | Some t \<Rightarrow> Some (row ! q ! s + t))
                         else Some (row ! q ! s))
                [0..<length (row ! q)])
         [0..<length row]"

definition add_C_Q :: "nat \<Rightarrow> real list \<Rightarrow> real list list list \<Rightarrow> real list list \<Rightarrow> real list list" where
  "add_C_Q n Qi mQn row = map stored (C_Q_step n Qi mQn row)"

text \<open>
  \<^verbatim>\<open>np.sum(np.reshape(x, (rows, cols)), axis=1)\<close>: the sums of consecutive groups of
  \<open>cols\<close> elements.
\<close>

definition row_sums :: "nat \<Rightarrow> nat \<Rightarrow> real list \<Rightarrow> real list" where
  "row_sums rows cols xs = map (\<lambda>r. sum_list (slice (r * cols) (r * cols + cols) xs)) [0..<rows]"

text \<open>
  Lines 448-449, for one outflow, \<open>col\<close> being \<^verbatim>\<open>PQ[:, i+1, q]\<close> and \<open>x\<close> being \<^verbatim>\<open>pQn[:, q]\<close>:
  \<^verbatim>\<open>PQ[1, i+1, q] += np.sum(pQn[:k+1, q])/n_substeps\<close> and
  \<^verbatim>\<open>PQ[2:max_age+1, i+1, q] += np.sum(np.reshape(pQn[k+1:M-(n_substeps-k-1), q],
  (max_age-1,n_substeps)), axis=1)/n_substeps\<close>.
\<close>

definition fold_ages :: "nat \<Rightarrow> nat \<Rightarrow> nat \<Rightarrow> real list \<Rightarrow> real list \<Rightarrow> real list" where
  "fold_ages n k mx x col =
     col ! 0 #
     (col ! 1 + sum_list (slice 0 (k + 1) x) / real n) #
     map (\<lambda>r. col ! (r + 2)
               + row_sums (mx - 1) n (slice (k + 1) (mx * n - (n - k - 1)) x) ! r / real n)
         [0..<mx - 1]"

text \<open>
  Lines 367-372: the two storage buffers change names, and the solute mass moves one
  age slot up, \<^verbatim>\<open>mSp[1:M,:] = mSn[0:M-1,:]\<close> and \<^verbatim>\<open>mSp[0,:] = 0.\<close>. (The roll of the
  age increments is part of stage 1.)
\<close>

definition begin_substep :: "args \<Rightarrow> state \<Rightarrow> state" where
  "begin_substep p st =
     st\<lparr> STn := STp st, STp := STn st,
         mSp := map (\<lambda>c. 0 # slice 0 (M_len p - 1) c) (mSn st) \<rparr>"

text \<open>Lines 429-438: the combined arrays of a substep, from the state at its start.\<close>

definition PQn_new :: "args \<Rightarrow> nat \<Rightarrow> state \<Rightarrow> real list list" where
  "PQn_new p i st =
     new_PQn (M_len p) (Q p ! i) (PQn st) (K1 p i st) (K2 p i st) (K3 p i st) (K4 p i st)"

definition STn_new :: "args \<Rightarrow> nat \<Rightarrow> state \<Rightarrow> real list" where
  "STn_new p i st =
     new_STn (M_len p) (h_sub p) (J p ! i) (Q p ! i) (STn st) (STp st) (PQn_new p i st)"

definition pQn :: "args \<Rightarrow> nat \<Rightarrow> state \<Rightarrow> real list list" where
  "pQn p i st = map np_diff (PQn_new p i st)"

definition mQn :: "args \<Rightarrow> nat \<Rightarrow> state \<Rightarrow> real list list list" where
  "mQn p i st =
     map (\<lambda>q. map (\<lambda>s. rk4_mean (mQj (K1 p i st) ! q ! s) (mQj (K2 p i st) ! q ! s)
                              (mQj (K3 p i st) ! q ! s) (mQj (K4 p i st) ! q ! s))
                [0..<numsol p])
         [0..<numflux p]"

definition mRn :: "args \<Rightarrow> nat \<Rightarrow> state \<Rightarrow> real list list" where
  "mRn p i st =
     map (\<lambda>s. rk4_mean (mRj (K1 p i st) ! s) (mRj (K2 p i st) ! s)
                       (mRj (K3 p i st) ! s) (mRj (K4 p i st) ! s))
         [0..<numsol p]"

text \<open>One substep \<open>k\<close> of timestep \<open>i\<close> (the body of the loop at line 365).\<close>

definition substep :: "args \<Rightarrow> nat \<Rightarrow> nat \<Rightarrow> state \<Rightarrow> state" where
  "substep p i k st0 =
    (let st = begin_substep p st0
     in st\<lparr> STn := STn_new p i st,
            sTn := np_diff (STn_new p i st),
            PQn := PQn_new p i st,
            mSn := new_mSn (h_sub p) (J p ! i) (C_J_row p i) (mSp st) (mRn p i st) (mQn p i st),
            C_Q := (C_Q st)[i := add_C_Q (n_substeps p) (Q p ! i) (mQn p i st) (C_Q st ! i)],
            PQ := (if full_outputs p
                   then (PQ st)[i + 1 :=
                          map (\<lambda>q. fold_ages (n_substeps p) k (max_age p) (pQn p i st ! q)
                                     (PQ st ! (i + 1) ! q))
                              [0..<numflux p]]
                   else PQ st) \<rparr>)"

text \<open>\<^verbatim>\<open>for k in range(n_substeps)\<close>: the state after the first \<open>k\<close> substeps of timestep \<open>i\<close>.\<close>

primrec substeps :: "args \<Rightarrow> nat \<Rightarrow> nat \<Rightarrow> state \<Rightarrow> state" where
  "substeps p i 0 st = st"
| "substeps p i (Suc k) st = substep p i k (substeps p i k st)"

subsection \<open>Storing the result of a timestep (lines 456-471)\<close>

text \<open>
  Lines 462-463, \<open>old\<close> being \<^verbatim>\<open>ST[:, i]\<close>, \<open>new\<close> being \<^verbatim>\<open>ST[:, i+1]\<close> and \<open>P\<close> being
  \<^verbatim>\<open>PQ[:, i+1, :]\<close>: rows 1 to \<open>max_age - 1\<close> of the column are written first, row 0 after.
\<close>

definition water_balance ::
  "nat \<Rightarrow> real \<Rightarrow> real \<Rightarrow> real list \<Rightarrow> real list \<Rightarrow> real list \<Rightarrow> real list list \<Rightarrow> real list"
where
  "water_balance mx dtv Ji Qi old new P =
     (Ji * dtv - new ! 1 - dtv * (\<Sum>q\<leftarrow>[0..<length Qi]. Qi ! q * (P ! q ! 1 - P ! q ! 0))) #
     map (\<lambda>r. np_diff (slice 0 mx old) ! r - np_diff (slice 1 (mx + 1) new) ! r
               - dtv * np_dot Qi (map (\<lambda>c. np_diff (slice 1 (length c) c)) P) r)
         [0..<mx - 1]"

text \<open>
  Line 471, for all outflows and solutes:
  \<^verbatim>\<open>C_Q[i,q,s] += alpha[i,q,s] * C_old[s] * (1 - PQ[max_age, i+1, q])\<close>.
\<close>

definition add_C_old :: "nat \<Rightarrow> real list list \<Rightarrow> real list \<Rightarrow> real list list \<Rightarrow> real list list \<Rightarrow> real list list" where
  "add_C_old mx al Cold P row =
     map (\<lambda>q. map (\<lambda>s. row ! q ! s + al ! q ! s * Cold ! s * (1 - P ! q ! mx))
                [0..<length (row ! q)])
         [0..<length row]"

definition C_old_vals :: "args \<Rightarrow> real list" where
  "C_old_vals p = (case C_old p of None \<Rightarrow> [] | Some c \<Rightarrow> c)"

text \<open>One timestep \<open>i\<close> (the body of the loop at line 363).\<close>

definition timestep :: "args \<Rightarrow> nat \<Rightarrow> state \<Rightarrow> state" where
  "timestep p i st0 =
    (let st = substeps p i (n_substeps p) st0
     in if full_outputs p
        then
          (let STcol = strided (n_substeps p) (slice 0 (M_len p + 1) (STn st));
               PQcol = map np_cumsum (PQ st ! (i + 1));
               ST' = (ST st)[i + 1 := STcol]
           in st\<lparr> ST := ST',
                  PQ := (PQ st)[i + 1 := PQcol],
                  WaterBalance := (WaterBalance st)[i :=
                     water_balance (max_age p) (dt p) (J p ! i) (Q p ! i)
                       (ST' ! i) (ST' ! (i + 1)) PQcol],
                  C_Q := (if 0 < numsol p
                          then (C_Q st)[i := add_C_old (max_age p) (alpha p ! i)
                                              (C_old_vals p) PQcol (C_Q st ! i)]
                          else C_Q st) \<rparr>)
        else st)"

text \<open>\<^verbatim>\<open>for i in range(timeseries_length)\<close>: the state after the first \<open>i\<close> timesteps.\<close>

primrec timesteps :: "args \<Rightarrow> nat \<Rightarrow> state \<Rightarrow> state" where
  "timesteps p 0 st = st"
| "timesteps p (Suc i) st = timestep p i (timesteps p i st)"

subsection \<open>Initial conditions (lines 303-359) and the solver\<close>

definition init_STn :: "nat \<Rightarrow> real list \<Rightarrow> real list" where
  "init_STn n st0 = 0 # map (\<lambda>x. x / real n) (np_cumsum (np_repeat n (np_diff st0)))"

definition init_mSn :: "args \<Rightarrow> real list \<Rightarrow> real list list" where
  "init_mSn p st0 =
     (case CS_init p of
        None \<Rightarrow> zeros2 (numsol p) (M_len p)
      | Some cs \<Rightarrow>
          map (\<lambda>s. map (\<lambda>x. x / real (n_substeps p))
                     (np_repeat (n_substeps p)
                        (np_diff (map (\<lambda>(c, v). c ! s * v) (zip cs st0)))))
              [0..<numsol p])"

definition init_state :: "args \<Rightarrow> real list \<Rightarrow> state" where
  "init_state p st0 =
    (let STn0 = init_STn (n_substeps p) st0;
         PQn0 = cdf_cols p 0 STn0
     in \<lparr> STn = STn0,
          STp = zeros (M_len p + 1),
          sTn = np_diff STn0,
          PQn = PQn0,
          mSn = init_mSn p st0,
          mSp = zeros2 (numsol p) (M_len p),
          ST = (if full_outputs p
                then (zeros2 (timeseries_length p + 1) (max_age p + 1))
                       [0 := strided (n_substeps p) (slice 0 (M_len p + 1) STn0)]
                else []),
          PQ = (if full_outputs p
                then (zeros3 (timeseries_length p + 1) (numflux p) (max_age p + 1))
                       [0 := map (\<lambda>c. strided (n_substeps p) (slice 0 (M_len p + 1) c)) PQn0]
                else []),
          WaterBalance = (if full_outputs p
                          then zeros2 (timeseries_length p) (max_age p) else []),
          C_Q = zeros3 (timeseries_length p) (numflux p) (numsol p) \<rparr>)"

text \<open>
  What stops the solver before it returns. The source has no \<^verbatim>\<open>raise\<close> of its own; these
  are the failures of the operations it performs, in the order it reaches them:
  \<^item> \<open>TypeError\<close>: \<^verbatim>\<open>len(ST_init)\<close> at line 294 when \<^verbatim>\<open>ST_init\<close> is \<^verbatim>\<open>None\<close>;
  \<^item> \<open>ZeroDivisionError\<close>: \<^verbatim>\<open>dt / n_substeps\<close> at line 296 when \<^verbatim>\<open>n_substeps\<close> is 0;
  \<^item> \<open>ValueError\<close>: \<^verbatim>\<open>np.zeros\<close> of a negative size (line 303 or 311), when \<^verbatim>\<open>ST_init\<close> is
    empty and so \<open>M\<close> is negative;
  \<^item> \<open>ValueError\<close> again: without full outputs, line 344 assigns \<^verbatim>\<open>np.zeros((0,0))\<close>, an
    array of two dimensions, to \<^verbatim>\<open>PQ\<close>, which line 276 declares as a buffer of three
    dimensions; the assignment fails in every run with \<^verbatim>\<open>full_outputs=False\<close>;
  \<^item> \<open>OutOfBounds\<close>: the write \<^verbatim>\<open>sTt[0] = h * J[i]\<close> at line 369 into an empty array when
    \<^verbatim>\<open>max_age\<close> is 0; bounds checking is switched off for the function, so the behaviour
    is undefined rather than an exception;
  \<^item> \<open>NoneAccess\<close>: the read \<^verbatim>\<open>C_old[s]\<close> at line 471 when \<^verbatim>\<open>C_old\<close> is \<^verbatim>\<open>None\<close>, reached at
    the end of the first timestep of a run with solutes, an outflow and full outputs;
    no check for \<^verbatim>\<open>None\<close> is compiled in, so this too is a failure of the process rather
    than an exception.
  In every case nothing is returned.
\<close>

datatype error = TypeError | ZeroDivisionError | ValueError | OutOfBounds | NoneAccess

definition solve_RK4 :: "args \<Rightarrow> error + state" where
  "solve_RK4 p =
    (case ST_init p of
       None \<Rightarrow> Inl TypeError
     | Some st0 \<Rightarrow>
         if n_substeps p = 0 then Inl ZeroDivisionError
         else if st0 = [] then Inl ValueError
         else if \<not> full_outputs p then Inl ValueError
         else if length st0 = 1 \<and> 0 < timeseries_length p then Inl OutOfBounds
         else if 0 < numsol p \<and> full_outputs p \<and> C_old p = None
                 \<and> 0 < timeseries_length p \<and> 0 < numflux p then Inl NoneAccess
         else Inr (timesteps p (timeseries_length p) (init_state p st0)))"

text \<open>
  The result dictionary holds the fields \<open>ST\<close>, \<open>PQ\<close> and \<open>WaterBalance\<close> of the final
  state, and \<open>C_Q\<close> as well when there are solutes. A run that returns is a run with
  full outputs.
\<close>

section \<open>The rounding of \<^verbatim>\<open>float64\<close> arithmetic\<close>

text \<open>
  The arrays of the solver hold \<^verbatim>\<open>float64\<close> numbers (IEEE 754 binary64), and each sum,
  difference, product and quotient of two of them is the exact result rounded to the
  nearest number with a significand of 53 bits, a tie going to the even significand.
  \<open>fl64\<close> is this rounding of a real number: with \<open>e\<close> the exponent of \<open>x\<close>, that is
  \<open>2 ^ e \<le> \<bar>x\<bar> < 2 ^ (e + 1)\<close>, the neighbours of \<open>x\<close> are the multiples of
  \<open>2 ^ (e - 52)\<close>. Overflow and the subnormal numbers below \<open>2 ^ (-1022)\<close> are not
  represented; no example comes near them.
\<close>

definition pow2 :: "int \<Rightarrow> real" where
  "pow2 e = (if 0 \<le> e then 2 ^ nat e else 1 / 2 ^ nat (- e))"

definition round_even :: "real \<Rightarrow> int" where
  "round_even y =
     (let f = \<lfloor>y\<rfloor>; r = y - of_int f
      in if r < 1 / 2 then f else if 1 / 2 < r then f + 1 else if even f then f else f + 1)"

definition exponent :: "real \<Rightarrow> int" where
  "exponent x = \<lfloor>log 2 \<bar>x\<bar>\<rfloor>"

definition fl64 :: "real \<Rightarrow> real" where
  "fl64 x = (if x = 0 then 0
             else of_int (round_even (x / pow2 (exponent x - 52))) * pow2 (exponent x - 52))"

subsection \<open>The initial storage profile (lines 349 and 356)\<close>

text \<open>
  \<^verbatim>\<open>np.diff\<close> and \<^verbatim>\<open>np.cumsum\<close> with the rounding of each difference and of each partial
  sum; \<^verbatim>\<open>np.cumsum\<close> copies the first entry and adds the others to the running total one
  after the other.
\<close>

fun np_diff64 :: "real list \<Rightarrow> real list" where
  "np_diff64 (x # y # xs) = fl64 (y - x) # np_diff64 (y # xs)"
| "np_diff64 xs = []"

fun cumsum64_from :: "real \<Rightarrow> real list \<Rightarrow> real list" where
  "cumsum64_from acc [] = []"
| "cumsum64_from acc (x # xs) = fl64 (acc + x) # cumsum64_from (fl64 (acc + x)) xs"

fun np_cumsum64 :: "real list \<Rightarrow> real list" where
  "np_cumsum64 [] = []"
| "np_cumsum64 (x # xs) = x # cumsum64_from x xs"

text \<open>
  Line 349, \<^verbatim>\<open>STn[1:] = np.cumsum(np.diff(ST_init).repeat(n_substeps, axis=0))/n_substeps\<close>,
  and line 356, \<^verbatim>\<open>ST[:,0] = STn[0:M+1:n_substeps]\<close>, as \<open>init_STn\<close> and \<open>init_state\<close> above
  but with the rounding of each operation: the first column of \<^verbatim>\<open>ST\<close> as the source
  computes it from \<^verbatim>\<open>n_substeps\<close> and \<^verbatim>\<open>ST_init\<close>.
\<close>

definition init_STn64 :: "nat \<Rightarrow> real list \<Rightarrow> real list" where
  "init_STn64 n st0 = 0 # map (\<lambda>x. fl64 (x / real n)) (np_cumsum64 (np_repeat n (np_diff64 st0)))"

definition first_column64 :: "nat \<Rightarrow> real list \<Rightarrow> real list" where
  "first_column64 n st0 = strided n (slice 0 ((length st0 - 1) * n + 1) (init_STn64 n st0))"

subsection \<open>The output distribution of a timestep (lines 429 to 460)\<close>

text \<open>
  Line 429, \<^verbatim>\<open>(PQ1 + 2*PQ2 + 2*PQ3 + PQ4)[:M,:] / 6.\<close>, for one outflow: numpy evaluates
  the two products, the three sums from left to right and the quotient, rounding each.
\<close>

definition rk4_mean64 :: "real list \<Rightarrow> real list \<Rightarrow> real list \<Rightarrow> real list \<Rightarrow> real list" where
  "rk4_mean64 x1 x2 x3 x4 =
     map (\<lambda>a. fl64 (fl64 (fl64 (fl64 (x1 ! a + fl64 (2 * x2 ! a)) + fl64 (2 * x3 ! a)) + x4 ! a) / 6))
         [0..<length x1]"

text \<open>
  Lines 429 and 435 for an outflow with flow: \<^verbatim>\<open>PQn[1:M+1,q]\<close> is the mean of the four
  stage distributions, \<^verbatim>\<open>PQn[0,q]\<close> stays as it was, and \<^verbatim>\<open>pQn = np.diff(PQn, axis=0)\<close>.
\<close>

definition pQn64 :: "nat \<Rightarrow> real list \<Rightarrow> real list \<Rightarrow> real list \<Rightarrow> real list \<Rightarrow> real list \<Rightarrow> real list" where
  "pQn64 M old x1 x2 x3 x4 = np_diff64 (old ! 0 # take M (rk4_mean64 x1 x2 x3 x4))"

text \<open>
  \<^verbatim>\<open>np.sum\<close> adds the entries of an array of fewer than eight entries one after the other,
  starting from 0. Lines 448-449 as \<open>row_sums\<close> and \<open>fold_ages\<close> above, with the rounding
  of each sum and quotient (longer sums, which numpy adds in blocks, do not occur in
  the example below).
\<close>

definition sum64 :: "real list \<Rightarrow> real" where
  "sum64 xs = foldl (\<lambda>s x. fl64 (s + x)) 0 xs"

definition row_sums64 :: "nat \<Rightarrow> nat \<Rightarrow> real list \<Rightarrow> real list" where
  "row_sums64 rows cols xs = map (\<lambda>r. sum64 (slice (r * cols) (r * cols + cols) xs)) [0..<rows]"

definition fold_ages64 :: "nat \<Rightarrow> nat \<Rightarrow> nat \<Rightarrow> real list \<Rightarrow> real list \<Rightarrow> real list" where
  "fold_ages64 n k mx x col =
     col ! 0 #
     fl64 (col ! 1 + fl64 (sum64 (slice 0 (k + 1) x) / real n)) #
     map (\<lambda>r. fl64 (col ! (r + 2)
                 + fl64 (row_sums64 (mx - 1) n (slice (k + 1) (mx * n - (n - k - 1)) x) ! r
                         / real n)))
         [0..<mx - 1]"

section \<open>Well-shaped runs and example runs\<close>

subsection \<open>Shapes\<close>

text \<open>
  The arguments as \<^verbatim>\<open>solve\<close> hands them over: \<^verbatim>\<open>Q\<close> has a row for each entry of \<^verbatim>\<open>J\<close>,
  each row has \<^verbatim>\<open>numflux\<close> entries, there is an rSAS function for each outflow, and
  \<^verbatim>\<open>cdf_i\<close> returns an array as long as the storage profile it is given.
\<close>

definition shaped :: "args \<Rightarrow> bool" where
  "shaped p \<longleftrightarrow>
     length (Q p) = length (J p) \<and>
     (\<forall>i<length (J p). length (Q p ! i) = numflux p) \<and>
     length (rSAS_fun p) = numflux p \<and>
     (\<forall>q<numflux p. \<forall>S i. length ((rSAS_fun p ! q) S i) = length S)"

text \<open>
  The shapes of the buffers and of the output arrays, as allocated at lines 303-344.
  Every substep and every timestep keeps them.
\<close>

definition shape_inv :: "args \<Rightarrow> state \<Rightarrow> bool" where
  "shape_inv p st \<longleftrightarrow>
     length (STn st) = M_len p + 1 \<and> length (STp st) = M_len p + 1 \<and>
     length (PQn st) = numflux p \<and> (\<forall>q<numflux p. length (PQn st ! q) = M_len p + 1) \<and>
     length (C_Q st) = timeseries_length p \<and>
     (\<forall>i<timeseries_length p. length (C_Q st ! i) = numflux p \<and>
         (\<forall>q<numflux p. length (C_Q st ! i ! q) = numsol p)) \<and>
     (full_outputs p \<longrightarrow>
        length (ST st) = timeseries_length p + 1 \<and>
        (\<forall>t\<le>timeseries_length p. length (ST st ! t) = max_age p + 1) \<and>
        length (PQ st) = timeseries_length p + 1 \<and>
        (\<forall>t\<le>timeseries_length p. length (PQ st ! t) = numflux p \<and>
            (\<forall>q<numflux p. length (PQ st ! t ! q) = max_age p + 1)) \<and>
        length (WaterBalance st) = timeseries_length p)"

text \<open>
  The shape of the buffers the stages of a substep read, after \<open>begin_substep\<close>: at least
  one age slot, storage of length \<open>M + 1\<close>, increments and solute columns of length \<open>M\<close>.
\<close>

definition stage_ready :: "args \<Rightarrow> state \<Rightarrow> bool" where
  "stage_ready p st \<longleftrightarrow>
     0 < M_len p \<and> length (STp st) = M_len p + 1 \<and> length (sTn st) = M_len p \<and>
     length (mSp st) = numsol p \<and> (\<forall>s<numsol p. length (mSp st ! s) = M_len p)"


subsection \<open>The substeps of a run\<close>

text \<open>
  The state in which substep \<open>k\<close> of timestep \<open>i\<close> starts, in a run from the initial
  profile \<open>st0\<close> (so \<open>state_at p st0 i (Suc k)\<close> is the state in which substep \<open>k\<close> ends),
  and the array \<^verbatim>\<open>pQn\<close> which that substep computes.
\<close>

definition state_at :: "args \<Rightarrow> real list \<Rightarrow> nat \<Rightarrow> nat \<Rightarrow> state" where
  "state_at p st0 i k = substeps p i k (timesteps p i (init_state p st0))"

definition pQn_at :: "args \<Rightarrow> real list \<Rightarrow> nat \<Rightarrow> nat \<Rightarrow> real list list" where
  "pQn_at p st0 i k = pQn p i (begin_substep p (state_at p st0 i k))"

text \<open>
  The cells of \<^verbatim>\<open>pQn\<close> that substep \<open>k\<close> adds to output age \<open>a\<close> (lines 448-449): the cells
  \<^verbatim>\<open>[:k+1]\<close> for age 1, and row \<open>a - 2\<close> of the reshaped slice \<^verbatim>\<open>[k+1:M-(n_substeps-k-1)]\<close>,
  which is \<open>n\<close> cells long, for an age from 2 on.
\<close>

definition owned_cells :: "nat \<Rightarrow> nat \<Rightarrow> nat \<Rightarrow> nat list" where
  "owned_cells n k a =
     (if a = 1 then [0..<k + 1] else [k + 1 + (a - 2) * n..<k + 1 + (a - 2) * n + n])"

subsection \<open>Example runs\<close>

text \<open>
  An rSAS function: uniform selection over a storage of one unit, whose cdf is the
  storage cut to [0, 1].
\<close>

definition uniform_cdf :: sas where
  "uniform_cdf S i = map (\<lambda>x. min 1 (max 0 x)) S"

text \<open>
  The run \<open>demo\<close>: one timestep of one substep, one age, inflow 1, a first outflow of 10
  and a second outflow without flow, initial storage \<open>[0, 1]\<close>, one solute of inflow
  concentration 1 with \<^verbatim>\<open>C_old = [5]\<close>, and the defaults \<^verbatim>\<open>solve\<close> fills in for \<^verbatim>\<open>alpha\<close>
  (ones), \<^verbatim>\<open>k1\<close> and \<^verbatim>\<open>C_eq\<close> (zeros). As a call:
  \<^verbatim>\<open>solve(np.array([1.]), np.array([[10., 0.]]), [u, u], ST_init=np.array([0., 1.]),
  C_J=np.array([[1.]]), C_old=np.array([5.]))\<close>.
\<close>

definition demo :: args where
  "demo = \<lparr> J = [1], Q = [[10, 0]], rSAS_fun = [uniform_cdf, uniform_cdf],
     ST_init = Some [0, 1], dt = 1, n_substeps = 1, full_outputs = True, CS_init = None,
     C_J = Some [[1]], alpha = [[[1], [1]]], k1 = [[0]], C_eq = [[0]], C_old = Some [5] \<rparr>"

text \<open>
  The states \<open>demo\<close> goes through: after the initial conditions, after the buffers have
  changed names at the start of the substep, after the substep, and after the results of
  the timestep are stored, which is the state the solver returns.
\<close>

definition demo_init :: state where
  "demo_init = \<lparr> STn = [0, 1], STp = [0, 0], sTn = [1], PQn = [[0, 1], [0, 1]],
     mSn = [[0]], mSp = [[0]], ST = [[0, 1], [0, 0]],
     PQ = [[[0, 1], [0, 1]], [[0, 0], [0, 0]]], WaterBalance = [[0]], C_Q = [[[0], [0]]] \<rparr>"

definition demo_start :: state where
  "demo_start = \<lparr> STn = [0, 0], STp = [0, 1], sTn = [1], PQn = [[0, 1], [0, 1]],
     mSn = [[0]], mSp = [[0]], ST = [[0, 1], [0, 0]],
     PQ = [[[0, 1], [0, 1]], [[0, 0], [0, 0]]], WaterBalance = [[0]], C_Q = [[[0], [0]]] \<rparr>"

definition demo_mid :: state where
  "demo_mid = \<lparr> STn = [0, -3/2], STp = [0, 1], sTn = [-3/2], PQn = [[0, 1/4], [0, 0]],
     mSn = [[-7/3]], mSp = [[0]], ST = [[0, 1], [0, 0]],
     PQ = [[[0, 1], [0, 1]], [[0, 1/4], [0, 0]]], WaterBalance = [[0]], C_Q = [[[1/3], [0]]] \<rparr>"

definition demo_final :: state where
  "demo_final = \<lparr> STn = [0, -3/2], STp = [0, 1], sTn = [-3/2], PQn = [[0, 1/4], [0, 0]],
     mSn = [[-7/3]], mSp = [[0]], ST = [[0, 1], [0, -3/2]],
     PQ = [[[0, 1], [0, 1]], [[0, 1/4], [0, 0]]], WaterBalance = [[0]], C_Q = [[[49/12], [5]]] \<rparr>"

text \<open>
  The run \<open>demo2\<close>: two timesteps of two substeps, two ages, water only, the outflow never
  above the inflow. Its result is left as the term the solver computes.
\<close>

definition demo2 :: args where
  "demo2 = \<lparr> J = [1, 1], Q = [[1 / 2], [1]], rSAS_fun = [uniform_cdf],
     ST_init = Some [0, 1, 2], dt = 1, n_substeps = 2, full_outputs = True, CS_init = None,
     C_J = None, alpha = [], k1 = [], C_eq = [], C_old = None \<rparr>"

definition demo2_final :: state where
  "demo2_final = timesteps demo2 2 (init_state demo2 [0, 1, 2])"

text \<open>
  The run \<open>flat\<close>, in \<^verbatim>\<open>float64\<close> arithmetic: one timestep of one substep, three ages, one
  outflow with flow, and an rSAS function whose \<^verbatim>\<open>cdf_i\<close> returns
  \<^verbatim>\<open>np.array([0., 0.4, 0.9, 1.])\<close> for every storage, so that the four stage distributions
  and the initial \<^verbatim>\<open>PQn[:,0]\<close> are this array. As a call:
  \<^verbatim>\<open>solve(np.array([1.]), np.array([[1.]]), [f], ST_init=np.array([0., 1., 2., 3.]))\<close>.
  \<open>flat_pQn\<close> is the array \<^verbatim>\<open>pQn[:,0]\<close> of its substep, \<open>flat_PQ\<close> its column \<^verbatim>\<open>PQ[:,1,0]\<close>:
  the accumulators of lines 448-449, which start at zero, after the running sum of
  line 460.
\<close>

definition flat_cdf :: "real list" where
  "flat_cdf = [0, fl64 (2 / 5), fl64 (9 / 10), 1]"

definition flat_pQn :: "real list" where
  "flat_pQn = pQn64 3 flat_cdf flat_cdf flat_cdf flat_cdf flat_cdf"

definition flat_PQ :: "real list" where
  "flat_PQ = np_cumsum64 (fold_ages64 1 0 3 flat_pQn (zeros 4))"


section \<open>Properties of the building blocks\<close>

subsection \<open>Differences, running sums, repetition and strided slices\<close>

lemma length_np_diff [simp]: "length (np_diff xs) = length xs - 1"
  by (induction xs rule: np_diff.induct) auto

lemma nth_np_diff: "Suc j < length xs \<Longrightarrow> np_diff xs ! j = xs ! Suc j - xs ! j"
proof (induction xs arbitrary: j rule: np_diff.induct)
  case (1 x y xs)
  then show ?case by (cases j) auto
qed auto

lemma length_cumsum_from [simp]: "length (cumsum_from acc xs) = length xs"
  by (induction xs arbitrary: acc) auto

lemma nth_cumsum_from:
  "j < length xs \<Longrightarrow> cumsum_from acc xs ! j = acc + sum_list (take (Suc j) xs)"
proof (induction xs arbitrary: acc j)
  case (Cons x xs)
  then show ?case by (cases j) (auto simp: add.assoc)
qed simp

lemma length_np_cumsum [simp]: "length (np_cumsum xs) = length xs"
  by (simp add: np_cumsum_def)

lemma nth_np_cumsum: "j < length xs \<Longrightarrow> np_cumsum xs ! j = sum_list (take (Suc j) xs)"
  by (simp add: np_cumsum_def nth_cumsum_from)

lemma np_cumsum_step:
  assumes "0 < a" "a < length xs"
  shows "np_cumsum xs ! a - np_cumsum xs ! (a - 1) = xs ! a"
proof -
  obtain b where b: "a = Suc b" using assms(1) by (cases a) auto
  have "take (Suc a) xs = take a xs @ [xs ! a]"
    using assms(2) by (simp add: take_Suc_conv_app_nth)
  then show ?thesis using assms b by (simp add: nth_np_cumsum)
qed

lemma length_np_repeat [simp]: "length (np_repeat n xs) = n * length xs"
  by (induction xs) (auto simp: np_repeat_def)




lemma length_strided: "0 < n \<Longrightarrow> length xs = m * n + 1 \<Longrightarrow> length (strided n xs) = m + 1"
  by (simp add: strided_def)

lemma nth_strided:
  assumes "0 < n" "length xs = m * n + 1" "a \<le> m"
  shows "strided n xs ! a = xs ! (a * n)"
proof -
  have c: "(length xs + n - 1) div n = Suc m" using assms by simp
  have "a < Suc m" using assms by simp
  then show ?thesis unfolding strided_def c by (simp del: upt_Suc)
qed

lemma length_init_STn [simp]: "length (init_STn n st0) = n * (length st0 - 1) + 1"
  by (simp add: init_STn_def)



subsection \<open>Rounding to \<^verbatim>\<open>float64\<close>\<close>

lemma pow2_powr: "pow2 e = 2 powr (of_int e)"
proof (cases "0 \<le> e")
  case True
  then have "2 powr (of_int e) = (2::real) powr (real (nat e))" by simp
  also have "\<dots> = 2 ^ nat e" by (simp add: powr_realpow)
  finally show ?thesis using True by (simp add: pow2_def)
next
  case False
  then have "(2::real) powr (of_int e) = 2 powr (- real (nat (- e)))" by simp
  also have "\<dots> = 1 / 2 ^ nat (- e)" by (simp add: powr_minus powr_realpow divide_inverse)
  finally show ?thesis using False by (simp add: pow2_def)
qed

lemma exponent_eq:
  assumes "pow2 k \<le> \<bar>x\<bar>" and "\<bar>x\<bar> < pow2 (k + 1)"
  shows "exponent x = k"
proof -
  have "0 < pow2 k" by (simp add: pow2_def)
  with assms(1) have "0 < \<bar>x\<bar>" by linarith
  moreover have "2 powr (of_int k) \<le> \<bar>x\<bar>" using assms(1) by (simp add: pow2_powr)
  moreover have "\<bar>x\<bar> < 2 powr (of_int k + 1)" using assms(2) by (simp add: pow2_powr)
  ultimately show ?thesis
    unfolding exponent_def using floor_log_eq_powr_iff [of "\<bar>x\<bar>" 2 k] by simp
qed

text \<open>The rounding of a number whose exponent is known.\<close>

lemma fl64_at:
  assumes "pow2 k \<le> \<bar>x\<bar>" and "\<bar>x\<bar> < pow2 (k + 1)"
  shows "fl64 x = of_int (round_even (x / pow2 (k - 52))) * pow2 (k - 52)"
proof -
  have "0 < pow2 k" by (simp add: pow2_def)
  with assms(1) have "x \<noteq> 0" by auto
  then show ?thesis by (simp add: fl64_def exponent_eq [OF assms])
qed

lemma fl64_0 [simp]: "fl64 0 = 0"
  by (simp add: fl64_def)

text \<open>The exponents from -5 to 2 cover the numbers from 1/32 up to 8 of the examples.\<close>

lemmas fl64_ranges =
  fl64_at [where k = "-5"] fl64_at [where k = "-4"] fl64_at [where k = "-3"]
  fl64_at [where k = "-2"] fl64_at [where k = "-1"] fl64_at [where k = 0]
  fl64_at [where k = 1] fl64_at [where k = 2]

subsection \<open>The shapes a substep keeps\<close>

lemma begin_substep_fields [simp]:
  "STn (begin_substep p st) = STp st" "STp (begin_substep p st) = STn st"
  "sTn (begin_substep p st) = sTn st" "PQn (begin_substep p st) = PQn st"
  "mSn (begin_substep p st) = mSn st" "ST (begin_substep p st) = ST st"
  "PQ (begin_substep p st) = PQ st" "WaterBalance (begin_substep p st) = WaterBalance st"
  "C_Q (begin_substep p st) = C_Q st"
  "mSp (begin_substep p st) = map (\<lambda>c. 0 # slice 0 (M_len p - 1) c) (mSn st)"
  by (simp_all add: begin_substep_def)

lemma substep_fields:
  "ST (substep p i k st) = ST st"
  "WaterBalance (substep p i k st) = WaterBalance st"
  "STp (substep p i k st) = STn st"
  "STn (substep p i k st) = STn_new p i (begin_substep p st)"
  "sTn (substep p i k st) = np_diff (STn_new p i (begin_substep p st))"
  "PQn (substep p i k st) = PQn_new p i (begin_substep p st)"
  "C_Q (substep p i k st) =
     (C_Q st)[i := add_C_Q (n_substeps p) (Q p ! i) (mQn p i (begin_substep p st)) (C_Q st ! i)]"
  "PQ (substep p i k st) =
     (if full_outputs p
      then (PQ st)[i + 1 :=
             map (\<lambda>q. fold_ages (n_substeps p) k (max_age p) (pQn p i (begin_substep p st) ! q)
                        (PQ st ! (i + 1) ! q))
                 [0..<numflux p]]
      else PQ st)"
  by (simp_all add: substep_def Let_def)

lemma stage_PQj:
  "PQj (K1 p i st) = cdf_cols p i (STp st)"
  "PQj (K2 p i st) = cdf_cols p i (STt (K1 p i st))"
  "PQj (K3 p i st) = cdf_cols p i (STt (K2 p i st))"
  "PQj (K4 p i st) = cdf_cols p i (STt (K3 p i st))"
  by (simp_all add: K1_def K2_def K3_def K4_def Let_def)

lemma stage_STt:
  "STt (K1 p i st) = trial_ST (STp st) (J p ! i) (Q p ! i) (PQj (K1 p i st)) (h_sub p)"
  "STt (K2 p i st) = trial_ST (STp st) (J p ! i) (Q p ! i) (PQj (K2 p i st)) (h_sub p)"
  "STt (K3 p i st) = trial_ST (STp st) (J p ! i) (Q p ! i) (PQj (K3 p i st)) (h_sub p)"
  by (simp_all add: K1_def K2_def K3_def Let_def)

lemma length_trial_ST [simp]: "length (trial_ST prev Ji Qi P h) = length prev"
  by (simp add: trial_ST_def)

lemma length_cdf_cols [simp]: "length (cdf_cols p i S) = numflux p"
  by (simp add: cdf_cols_def)

lemma nth_cdf_cols: "q < numflux p \<Longrightarrow> cdf_cols p i S ! q = (rSAS_fun p ! q) S i"
  by (simp add: cdf_cols_def)

lemma length_cdf_col: "shaped p \<Longrightarrow> q < numflux p \<Longrightarrow> length (cdf_cols p i S ! q) = length S"
  by (simp add: nth_cdf_cols shaped_def)

lemma length_stage_STt [simp]:
  "length (STt (K1 p i st)) = length (STp st)"
  "length (STt (K2 p i st)) = length (STp st)"
  "length (STt (K3 p i st)) = length (STp st)"
  by (simp_all add: stage_STt)

lemma length_stage_PQj:
  assumes "shaped p" "q < numflux p"
  shows "length (PQj (K1 p i st) ! q) = length (STp st)"
    "length (PQj (K2 p i st) ! q) = length (STp st)"
    "length (PQj (K3 p i st) ! q) = length (STp st)"
    "length (PQj (K4 p i st) ! q) = length (STp st)"
  using assms by (simp_all add: stage_PQj length_cdf_col)

lemma length_rk4_mean [simp]: "length (rk4_mean x1 x2 x3 x4) = length x1"
  by (simp add: rk4_mean_def)

lemma length_PQn_new [simp]: "length (PQn_new p i st) = length (PQn st)"
  by (simp add: PQn_new_def new_PQn_def)

lemma nth_PQn_new:
  "q < length (PQn st) \<Longrightarrow> PQn_new p i st ! q =
     (if Q p ! i ! q = 0 then map (\<lambda>x. 0) (PQn st ! q)
      else PQn st ! q ! 0 #
           take (M_len p) (rk4_mean (PQj (K1 p i st) ! q) (PQj (K2 p i st) ! q)
                                    (PQj (K3 p i st) ! q) (PQj (K4 p i st) ! q)))"
  by (simp add: PQn_new_def new_PQn_def)

lemma length_PQn_new_col:
  assumes "shaped p" "q < numflux p" "length (PQn st) = numflux p"
    "length (PQn st ! q) = M_len p + 1" "length (STp st) = M_len p + 1"
  shows "length (PQn_new p i st ! q) = M_len p + 1"
  using assms by (simp add: nth_PQn_new length_stage_PQj)

lemma length_STn_new [simp]: "length (STn_new p i st) = M_len p + 1"
  by (simp add: STn_new_def new_STn_def)

lemma length_fold_ages: "0 < mx \<Longrightarrow> length (fold_ages n k mx x col) = mx + 1"
  by (simp add: fold_ages_def)

lemma length_add_C_Q [simp]: "length (add_C_Q n Qi m row) = length row"
  by (simp add: add_C_Q_def C_Q_step_def)

lemma length_add_C_Q_col [simp]: "q < length row \<Longrightarrow> length (add_C_Q n Qi m row ! q) = length (row ! q)"
  by (simp add: add_C_Q_def C_Q_step_def stored_def)

text \<open>
  The update of \<^verbatim>\<open>C_Q\<close> divides by \<^verbatim>\<open>Q[i,q]\<close> only where it is positive, and by the positive
  \<^verbatim>\<open>n_substeps\<close>: no entry is \<open>None\<close>. Without positive flow the entry is not touched.
\<close>

lemma nth_C_Q_step:
  assumes "0 < n" "q < length row" "s < length (row ! q)"
  shows "C_Q_step n Qi m row ! q ! s =
     Some (if 0 < Qi ! q then row ! q ! s + sum_list (m ! q ! s) / Qi ! q / real n
           else row ! q ! s)"
  using assms by (simp add: C_Q_step_def C_Q_term_def scalar_divide_def)

lemma nth_C_Q_step_no_flow:
  assumes "q < length row" "s < length (row ! q)" "\<not> 0 < Qi ! q"
  shows "C_Q_step n Qi m row ! q ! s = Some (row ! q ! s)"
  using assms by (simp add: C_Q_step_def)

lemma add_C_Q_no_flow:
  assumes "q < length row" "\<not> 0 < Qi ! q"
  shows "add_C_Q n Qi m row ! q = row ! q"
  using assms
  by (intro nth_equalityI) (simp_all add: add_C_Q_def C_Q_step_def stored_def)

lemma length_add_C_old [simp]: "length (add_C_old mx al c P row) = length row"
  by (simp add: add_C_old_def)

lemma length_add_C_old_col [simp]:
  "q < length row \<Longrightarrow> length (add_C_old mx al c P row ! q) = length (row ! q)"
  by (simp add: add_C_old_def)

lemma shape_inv_substep:
  assumes "shaped p" "shape_inv p st" "0 < max_age p" "i < timeseries_length p"
  shows "shape_inv p (substep p i k st)"
proof -
  have pq: "length (PQn_new p i (begin_substep p st) ! q) = Suc (M_len p)" if "q < numflux p" for q
    using assms that length_PQn_new_col[of p q "begin_substep p st" i]
    by (simp add: shape_inv_def)
  show ?thesis
    using assms
    by (auto simp: shape_inv_def substep_fields nth_list_update length_fold_ages pq)
qed

lemma shape_inv_substeps:
  assumes "shaped p" "shape_inv p st" "0 < max_age p" "i < timeseries_length p"
  shows "shape_inv p (substeps p i k st)"
  using assms by (induction k) (auto intro: shape_inv_substep)

subsection \<open>What each stage computes\<close>

lemma stage_sTt:
  "sTt (K1 p i st) = (np_roll1 (sTn st))[0 := h_sub p * J p ! i]"
  "sTt (K2 p i st) = increments (M_len p) (STt (K1 p i st) ! 0) (STt (K1 p i st))"
  "sTt (K3 p i st) = increments (M_len p) (STt (K2 p i st) ! 0) (STt (K2 p i st))"
  "sTt (K4 p i st) = increments (M_len p) (STt (K3 p i st) ! 0) (STt (K3 p i st))"
  by (simp_all add: K1_def K2_def K3_def K4_def Let_def)

lemma stage_pQt:
  "pQt (K1 p i st) = density (M_len p) (PQj (K1 p i st)) (PQj (K1 p i st))"
  "pQt (K2 p i st) = density (M_len p) (PQj (K2 p i st)) (PQj (K2 p i st))"
  "pQt (K3 p i st) = density (M_len p) (PQj (K2 p i st)) (PQj (K3 p i st))"
  "pQt (K4 p i st) = density (M_len p) (PQj (K2 p i st)) (PQj (K4 p i st))"
  by (simp_all add: K1_def K2_def K3_def K4_def Let_def)

lemma stage_mQj:
  "mQj (K1 p i st) = mQ_stage (sTt (K1 p i st)) (mSp st) (alpha p ! i) (Q p ! i) (pQt (K1 p i st))"
  "mQj (K2 p i st) =
     mQ_stage (sTt (K2 p i st)) (mSt (K1 p i st)) (alpha p ! i) (Q p ! i) (pQt (K2 p i st))"
  "mQj (K3 p i st) =
     mQ_stage (sTt (K3 p i st)) (mSt (K2 p i st)) (alpha p ! i) (Q p ! i) (pQt (K3 p i st))"
  "mQj (K4 p i st) =
     mQ_stage (sTt (K4 p i st)) (mSt (K3 p i st)) (alpha p ! i) (Q p ! i) (pQt (K4 p i st))"
  by (simp_all add: K1_def K2_def K3_def K4_def Let_def)

lemma stage_mRj:
  "mRj (K1 p i st) = mR_stage (k1 p ! i) (C_eq p ! i) (sTt (K1 p i st)) (mSp st)"
  "mRj (K2 p i st) = mR_stage (k1 p ! i) (C_eq p ! i) (sTt (K2 p i st)) (mSt (K1 p i st))"
  "mRj (K3 p i st) = mR_stage (k1 p ! i) (C_eq p ! i) (sTt (K3 p i st)) (mSt (K2 p i st))"
  "mRj (K4 p i st) = mR_stage (k1 p ! i) (C_eq p ! i) (sTt (K4 p i st)) (mSt (K3 p i st))"
  by (simp_all add: K1_def K2_def K3_def K4_def Let_def)

lemma stage_mSt:
  "mSt (K1 p i st) = trial_mS (mSp st) (mQj (K1 p i st)) (mRj (K1 p i st)) (h_sub p) (J p ! i)
                       (C_J_row p i) (h_sub p / 2)"
  "mSt (K2 p i st) = trial_mS (mSp st) (mQj (K2 p i st)) (mRj (K2 p i st)) (h_sub p) (J p ! i)
                       (C_J_row p i) (h_sub p / 2)"
  "mSt (K3 p i st) = trial_mS (mSp st) (mQj (K3 p i st)) (mRj (K3 p i st)) (h_sub p) (J p ! i)
                       (C_J_row p i) (h_sub p)"
  by (simp_all add: K1_def K2_def K3_def Let_def)

lemma length_increments: "0 < M \<Longrightarrow> M \<le> length col \<Longrightarrow> length (increments M front col) = M"
  by (simp add: increments_def)

lemma nth_increments_0: "increments M front col ! 0 = front"
  by (simp add: increments_def)

lemma nth_increments_Suc:
  "Suc a < M \<Longrightarrow> M \<le> length col \<Longrightarrow> increments M front col ! Suc a = col ! Suc a - col ! a"
  by (simp add: increments_def nth_np_diff)

lemma length_np_roll1 [simp]: "length (np_roll1 xs) = length xs"
  by (simp add: np_roll1_def)

lemma length_density [simp]: "length (density M P C) = length C"
  by (simp add: density_def)

lemma nth_density:
  "q < length C \<Longrightarrow> density M P C ! q = increments M (P ! q ! 0) (C ! q)"
  by (simp add: density_def)

lemma length_mQ_stage [simp]: "length (mQ_stage sT mS al Qi pQ) = length Qi"
  by (simp add: mQ_stage_def)

lemma length_mR_stage [simp]: "length (mR_stage k c sT mS) = length mS"
  by (simp add: mR_stage_def)

lemma nth_mR_stage:
  "s < length mS \<Longrightarrow> a < length sT \<Longrightarrow>
     mR_stage k c sT mS ! s ! a = k ! s * (c ! s * sT ! a - mS ! s ! a)"
  by (simp add: mR_stage_def)

lemma length_trial_mS [simp]: "length (trial_mS mSprev mQ mR h Ji CJi w) = length mSprev"
  by (simp add: trial_mS_def)

lemma length_trial_mS_col [simp]:
  "s < length mSprev \<Longrightarrow> length (trial_mS mSprev mQ mR h Ji CJi w ! s) = length (mSprev ! s)"
  by (simp add: trial_mS_def add_at0_def)

lemma nth_trial_mS:
  "s < length mSprev \<Longrightarrow> a < length (mSprev ! s) \<Longrightarrow>
     trial_mS mSprev mQ mR h Ji CJi w ! s ! a =
       mSprev ! s ! a - (\<Sum>q\<leftarrow>[0..<length mQ]. mQ ! q ! s ! a) * h / 2 + mR ! s ! a * h / 2
       + (if a = 0 then Ji * CJi ! s * w else 0)"
  by (cases a) (auto simp: trial_mS_def add_at0_def nth_list_update)

lemma nth_mQ_col:
  assumes "a < length sT" "a < length mS" "a < length pQ"
  shows "mQ_col sT mS al Qq pQ ! a =
           Some (if 0 < sT ! a then mS ! a * al * Qq * pQ ! a / sT ! a else 0)"
  using assms
  by (auto simp: mQ_col_def mQ_quotient_def mQ_numerator_def np_where_def np_divide_def)

lemma length_mQ_col:
  "length (mQ_col sT mS al Qq pQ) = min (length sT) (min (length mS) (length pQ))"
  by (auto simp: mQ_col_def mQ_quotient_def mQ_numerator_def np_where_def np_divide_def)

lemma nth_mQ_stage:
  assumes "q < length Qi" "s < length mS" "a < length sT" "a < length (mS ! s)"
    "a < length (pQ ! q)"
  shows "mQ_stage sT mS al Qi pQ ! q ! s ! a =
           (if 0 < sT ! a then mS ! s ! a * al ! q ! s * Qi ! q * pQ ! q ! a / sT ! a else 0)"
  using assms by (simp add: mQ_stage_def stored_def length_mQ_col nth_mQ_col)

lemma nth_trial_ST:
  "a < length prev \<Longrightarrow>
     trial_ST prev Ji Qi P h ! a = max 0 (prev ! a + (Ji - np_dot Qi P a) * h / 2)"
  by (simp add: trial_ST_def)

text \<open>The shapes of the arrays of the four stages, from the shape of the state.\<close>

lemma stage_shapes:
  assumes "shaped p" "stage_ready p st"
  shows "length (sTt (K1 p i st)) = M_len p" "length (sTt (K2 p i st)) = M_len p"
    "length (sTt (K3 p i st)) = M_len p" "length (sTt (K4 p i st)) = M_len p"
    "length (mSt (K1 p i st)) = numsol p" "length (mSt (K2 p i st)) = numsol p"
    "length (mSt (K3 p i st)) = numsol p"
    "s < numsol p \<Longrightarrow> length (mSt (K1 p i st) ! s) = M_len p"
    "s < numsol p \<Longrightarrow> length (mSt (K2 p i st) ! s) = M_len p"
    "s < numsol p \<Longrightarrow> length (mSt (K3 p i st) ! s) = M_len p"
    "q < numflux p \<Longrightarrow> length (pQt (K1 p i st) ! q) = M_len p"
    "q < numflux p \<Longrightarrow> length (pQt (K2 p i st) ! q) = M_len p"
    "q < numflux p \<Longrightarrow> length (pQt (K3 p i st) ! q) = M_len p"
    "q < numflux p \<Longrightarrow> length (pQt (K4 p i st) ! q) = M_len p"
  using assms
  by (simp_all add: stage_ready_def stage_sTt stage_mSt stage_pQt stage_PQj length_increments
        nth_density length_cdf_col)

subsection \<open>The shapes a run keeps, and what later steps leave alone\<close>

lemma substeps_frame:
  "ST (substeps p i k st) = ST st"
  "WaterBalance (substeps p i k st) = WaterBalance st"
  by (induction k) (simp_all add: substep_fields)

lemma substeps_PQ_frame: "t \<noteq> i + 1 \<Longrightarrow> PQ (substeps p i k st) ! t = PQ st ! t"
  by (induction k) (simp_all add: substep_fields)

lemma substeps_C_Q_frame: "j \<noteq> i \<Longrightarrow> C_Q (substeps p i k st) ! j = C_Q st ! j"
  by (induction k) (simp_all add: substep_fields)

lemma timestep_fields:
  "full_outputs p \<Longrightarrow> ST (timestep p i st) =
     (ST st)[i + 1 := strided (n_substeps p) (slice 0 (M_len p + 1) (STn (substeps p i (n_substeps p) st)))]"
  "full_outputs p \<Longrightarrow> PQ (timestep p i st) =
     (PQ (substeps p i (n_substeps p) st))[i + 1 :=
        map np_cumsum (PQ (substeps p i (n_substeps p) st) ! (i + 1))]"
  "full_outputs p \<Longrightarrow> WaterBalance (timestep p i st) =
     (WaterBalance st)[i := water_balance (max_age p) (dt p) (J p ! i) (Q p ! i)
        (ST (timestep p i st) ! i) (ST (timestep p i st) ! (i + 1))
        (map np_cumsum (PQ (substeps p i (n_substeps p) st) ! (i + 1)))]"
  "STn (timestep p i st) = STn (substeps p i (n_substeps p) st)"
  "STp (timestep p i st) = STp (substeps p i (n_substeps p) st)"
  "PQn (timestep p i st) = PQn (substeps p i (n_substeps p) st)"
  "C_Q (timestep p i st) =
     (if full_outputs p \<and> 0 < numsol p
      then (C_Q (substeps p i (n_substeps p) st))[i :=
             add_C_old (max_age p) (alpha p ! i) (C_old_vals p)
               (map np_cumsum (PQ (substeps p i (n_substeps p) st) ! (i + 1)))
               (C_Q (substeps p i (n_substeps p) st) ! i)]
      else C_Q (substeps p i (n_substeps p) st))"
  "\<not> full_outputs p \<Longrightarrow> timestep p i st = substeps p i (n_substeps p) st"
  by (simp_all add: timestep_def Let_def substeps_frame)

lemma slice_all [simp]: "slice 0 (length xs) xs = xs"
  by (simp add: slice_def)

lemma shape_inv_timestep:
  assumes "shaped p" "shape_inv p st" "0 < max_age p" "i < timeseries_length p" "0 < n_substeps p"
  shows "shape_inv p (timestep p i st)"
proof -
  let ?s = "substeps p i (n_substeps p) st"
  have inv: "shape_inv p ?s" using assms by (intro shape_inv_substeps)
  show ?thesis
  proof (cases "full_outputs p")
    case False
    then show ?thesis using inv by (simp add: timestep_fields)
  next
    case True
    have len: "length (STn ?s) = max_age p * n_substeps p + 1"
      using inv by (simp add: shape_inv_def M_len_def)
    have st: "length (strided (n_substeps p) (slice 0 (M_len p + 1) (STn ?s))) = max_age p + 1"
      using length_strided[OF assms(5) len] len by (simp add: M_len_def slice_def)
    show ?thesis
      using inv True st assms(4)
      by (auto simp: shape_inv_def timestep_fields substeps_frame nth_list_update)
  qed
qed

lemma shape_inv_timesteps:
  assumes "shaped p" "shape_inv p st" "0 < max_age p" "i \<le> timeseries_length p" "0 < n_substeps p"
  shows "shape_inv p (timesteps p i st)"
  using assms by (induction i) (auto intro: shape_inv_timestep)

lemma init_state_fields:
  "STn (init_state p st0) = init_STn (n_substeps p) st0"
  "STp (init_state p st0) = zeros (M_len p + 1)"
  "PQn (init_state p st0) = cdf_cols p 0 (init_STn (n_substeps p) st0)"
  "C_Q (init_state p st0) = zeros3 (timeseries_length p) (numflux p) (numsol p)"
  "full_outputs p \<Longrightarrow> ST (init_state p st0) =
     (zeros2 (timeseries_length p + 1) (max_age p + 1))
       [0 := strided (n_substeps p) (slice 0 (M_len p + 1) (init_STn (n_substeps p) st0))]"
  "full_outputs p \<Longrightarrow> PQ (init_state p st0) =
     (zeros3 (timeseries_length p + 1) (numflux p) (max_age p + 1))
       [0 := map (\<lambda>c. strided (n_substeps p) (slice 0 (M_len p + 1) c))
               (cdf_cols p 0 (init_STn (n_substeps p) st0))]"
  "full_outputs p \<Longrightarrow> WaterBalance (init_state p st0) =
     zeros2 (timeseries_length p) (max_age p)"
  by (simp_all add: init_state_def Let_def)

lemma length_zeros [simp]: "length (zeros n) = n"
  by (simp add: zeros_def)

lemma length_zeros2 [simp]: "length (zeros2 m n) = m"
  by (simp add: zeros2_def)

lemma nth_zeros2 [simp]: "i < m \<Longrightarrow> zeros2 m n ! i = zeros n"
  by (simp add: zeros2_def)

lemma length_zeros3 [simp]: "length (zeros3 l m n) = l"
  by (simp add: zeros3_def)

lemma nth_zeros3 [simp]: "i < l \<Longrightarrow> zeros3 l m n ! i = zeros2 m n"
  by (simp add: zeros3_def)

lemma length_init_STn_M:
  "ST_init p = Some st0 \<Longrightarrow> st0 \<noteq> [] \<Longrightarrow> length (init_STn (n_substeps p) st0) = M_len p + 1"
  by (simp add: M_len_def max_age_def mult.commute)

lemma shape_inv_init:
  assumes "shaped p" "ST_init p = Some st0" "st0 \<noteq> []" "0 < n_substeps p"
  shows "shape_inv p (init_state p st0)"
proof -
  let ?S = "init_STn (n_substeps p) st0"
  have lenM: "length ?S = Suc (M_len p)"
    using length_init_STn_M[OF assms(2,3)] by simp
  have len: "length ?S = max_age p * n_substeps p + 1"
    using lenM by (simp add: M_len_def)
  have st: "length (strided (n_substeps p) ?S) = Suc (max_age p)"
    using length_strided[OF assms(4) len] by simp
  have clen: "length (cdf_cols p 0 ?S ! q) = Suc (M_len p)" if "q < numflux p" for q
    using length_cdf_col[OF assms(1) that, of 0 ?S] lenM by simp
  have col: "length (strided (n_substeps p) (cdf_cols p 0 ?S ! q)) = Suc (max_age p)"
    if "q < numflux p" for q
    using length_strided[OF assms(4), of "cdf_cols p 0 ?S ! q" "max_age p"] clen[OF that]
    by (simp add: M_len_def)
  have sl: "slice 0 (Suc (M_len p)) ?S = ?S"
    using lenM by (simp add: slice_def)
  have slc: "slice 0 (Suc (M_len p)) (cdf_cols p 0 ?S ! q) = cdf_cols p 0 ?S ! q"
    if "q < numflux p" for q
    using clen[OF that] by (simp add: slice_def)
  show ?thesis
    unfolding shape_inv_def init_state_fields
    using lenM st col clen
    by (auto simp: init_state_fields nth_list_update sl slc)
qed

lemma solve_RK4_Inr:
  assumes "solve_RK4 p = Inr r"
  obtains st0 where "ST_init p = Some st0" "st0 \<noteq> []" "0 < n_substeps p"
    "r = timesteps p (timeseries_length p) (init_state p st0)"
    "0 < timeseries_length p \<longrightarrow> 0 < max_age p" "full_outputs p"
proof -
  from assms obtain st0 where s: "ST_init p = Some st0" "n_substeps p \<noteq> 0" "st0 \<noteq> []"
      "\<not> (length st0 = 1 \<and> 0 < timeseries_length p)"
      "r = timesteps p (timeseries_length p) (init_state p st0)" "full_outputs p"
    by (auto simp: solve_RK4_def split: option.splits if_splits)
  have "length st0 \<noteq> 0" using s(3) by simp
  then have "0 < timeseries_length p \<longrightarrow> 0 < length st0 - 1"
    using s(4) by arith
  then have "0 < timeseries_length p \<longrightarrow> 0 < max_age p"
    using s(1) by (simp add: max_age_def)
  then show ?thesis using that[of st0] s by simp
qed

lemma timesteps_ST_frame:
  "full_outputs p \<Longrightarrow> t \<le> j \<Longrightarrow> ST (timesteps p (j + k) st) ! t = ST (timesteps p j st) ! t"
  by (induction k) (simp_all add: timestep_fields)

lemma timesteps_PQ_frame:
  "full_outputs p \<Longrightarrow> t \<le> j \<Longrightarrow> PQ (timesteps p (j + k) st) ! t = PQ (timesteps p j st) ! t"
  by (induction k) (simp_all add: timestep_fields substeps_PQ_frame)

lemma timesteps_WB_frame:
  "full_outputs p \<Longrightarrow> t < j \<Longrightarrow>
     WaterBalance (timesteps p (j + k) st) ! t = WaterBalance (timesteps p j st) ! t"
  by (induction k) (simp_all add: timestep_fields)

lemma timesteps_C_Q_frame:
  "t < j \<Longrightarrow> C_Q (timesteps p (j + k) st) ! t = C_Q (timesteps p j st) ! t"
  by (induction k) (simp_all add: timestep_fields substeps_C_Q_frame)

lemma timesteps_PQ_later:
  "full_outputs p \<Longrightarrow> j < t \<Longrightarrow> PQ (timesteps p j st) ! t = PQ st ! t"
  by (induction j) (simp_all add: timestep_fields substeps_PQ_frame)

lemma timesteps_C_Q_later:
  "j \<le> t \<Longrightarrow> C_Q (timesteps p j st) ! t = C_Q st ! t"
  by (induction j) (simp_all add: timestep_fields substeps_C_Q_frame)

lemma final_column:
  assumes "full_outputs p" "t \<le> T"
  shows "ST (timesteps p T st) ! t = ST (timesteps p t st) ! t"
    "PQ (timesteps p T st) ! t = PQ (timesteps p t st) ! t"
  using timesteps_ST_frame[where t = t and j = t and k = "T - t" and p = p and st = st]
    timesteps_PQ_frame[where t = t and j = t and k = "T - t" and p = p and st = st] assms
  by simp_all

lemma final_WB:
  assumes "full_outputs p" "i < T"
  shows "WaterBalance (timesteps p T st) ! i = WaterBalance (timesteps p (Suc i) st) ! i"
  using timesteps_WB_frame[where t = i and j = "Suc i" and k = "T - Suc i" and p = p and st = st]
    assms by simp

lemma final_C_Q:
  assumes "i < T"
  shows "C_Q (timesteps p T st) ! i = C_Q (timesteps p (Suc i) st) ! i"
  using timesteps_C_Q_frame[where t = i and j = "Suc i" and k = "T - Suc i" and p = p and st = st]
    assms by simp

subsection \<open>Slices and their sums\<close>

lemma length_slice: "hi \<le> length xs \<Longrightarrow> length (slice lo hi xs) = hi - lo"
  by (simp add: slice_def)

lemma nth_slice: "lo + j < hi \<Longrightarrow> hi \<le> length xs \<Longrightarrow> slice lo hi xs ! j = xs ! (lo + j)"
  by (simp add: slice_def)

lemma slice_eq_map_nth:
  assumes "hi \<le> length xs"
  shows "slice lo hi xs = map ((!) xs) [lo..<hi]"
proof (rule nth_equalityI)
  show "length (slice lo hi xs) = length (map ((!) xs) [lo..<hi])"
    using assms by (simp add: length_slice)
next
  fix j assume "j < length (slice lo hi xs)"
  then have "lo + j < hi" using assms by (simp add: length_slice)
  then show "slice lo hi xs ! j = map ((!) xs) [lo..<hi] ! j"
    using assms by (simp add: nth_slice)
qed

lemma sum_list_slice: "hi \<le> length xs \<Longrightarrow> sum_list (slice lo hi xs) = (\<Sum>c\<leftarrow>[lo..<hi]. xs ! c)"
  by (simp add: slice_eq_map_nth)

lemma slice_slice: "b \<le> hi - lo \<Longrightarrow> slice a b (slice lo hi xs) = slice (lo + a) (lo + b) xs"
  by (simp add: slice_def drop_take min_def add.commute)

lemma sum_list_cong_upt:
  "(\<And>q. q < n \<Longrightarrow> f q = g q) \<Longrightarrow> (\<Sum>q\<leftarrow>[0..<n]. f q) = (\<Sum>q\<leftarrow>[0..<n]. (g q :: real))"
  by (rule arg_cong[where f = sum_list]) simp

lemma nth_row_sums:
  "r < rows \<Longrightarrow> row_sums rows cols xs ! r = sum_list (slice (r * cols) (r * cols + cols) xs)"
  by (simp add: row_sums_def)

lemma fold_ages_0: "fold_ages n k mx x col ! 0 = col ! 0"
  by (simp add: fold_ages_def)

lemma fold_ages_nth:
  assumes "k < n" "length x = mx * n" "1 \<le> a" "a \<le> mx"
  shows "fold_ages n k mx x col ! a = col ! a + (\<Sum>c\<leftarrow>owned_cells n k a. x ! c) / real n"
proof (cases "a = 1")
  case True
  have "n \<le> mx * n" using assms(3,4) by (cases mx) auto
  then have "k + 1 \<le> length x" using assms(1,2) by linarith
  then have "sum_list (slice 0 (k + 1) x) = (\<Sum>c\<leftarrow>[0..<k + 1]. x ! c)"
    by (rule sum_list_slice)
  then show ?thesis using True by (simp add: fold_ages_def owned_cells_def)
next
  case False
  define r where "r = a - 2"
  have a: "a = r + 2" using False assms(3) by (simp add: r_def)
  have r: "r < mx - 1" using a assms(4) by simp
  have "(r + 2) * n \<le> mx * n" using a assms(4) by (intro mult_le_mono1) simp
  then have bound: "r * n + n + n \<le> mx * n" by (simp add: algebra_simps)
  have hi: "mx * n - (n - k - 1) = mx * n - n + k + 1"
    using assms(1) bound by simp
  have in1: "r * n + n \<le> (mx * n - (n - k - 1)) - (k + 1)"
    using bound hi by simp
  have in2: "k + 1 + (r * n + n) \<le> length x"
    using bound assms(1,2) by simp
  have "row_sums (mx - 1) n (slice (k + 1) (mx * n - (n - k - 1)) x) ! r
        = sum_list (slice (r * n) (r * n + n) (slice (k + 1) (mx * n - (n - k - 1)) x))"
    using r by (rule nth_row_sums)
  also have "\<dots> = sum_list (slice (k + 1 + r * n) (k + 1 + (r * n + n)) x)"
    using in1 by (simp add: slice_slice)
  also have "\<dots> = (\<Sum>c\<leftarrow>[k + 1 + r * n..<k + 1 + (r * n + n)]. x ! c)"
    using in2 by (rule sum_list_slice)
  finally have "row_sums (mx - 1) n (slice (k + 1) (mx * n - (n - k - 1)) x) ! r
        = (\<Sum>c\<leftarrow>owned_cells n k a. x ! c)"
    using a by (simp add: owned_cells_def add.assoc)
  then show ?thesis using a r by (simp add: fold_ages_def del: upt_Suc)
qed

lemma water_balance_0:
  "water_balance mx dtv Ji Qi old new P ! 0 =
     Ji * dtv - new ! 1 - dtv * (\<Sum>q\<leftarrow>[0..<length Qi]. Qi ! q * (P ! q ! 1 - P ! q ! 0))"
  by (simp add: water_balance_def)

lemma water_balance_Suc:
  assumes "Suc b < mx" "length old = mx + 1" "length new = mx + 1"
    "\<And>q. q < length Qi \<Longrightarrow> length (P ! q) = mx + 1" "length Qi \<le> length P"
  shows "water_balance mx dtv Ji Qi old new P ! Suc b =
     (old ! Suc b - old ! b) - (new ! (Suc b + 1) - new ! Suc b)
     - dtv * (\<Sum>q\<leftarrow>[0..<length Qi]. Qi ! q * (P ! q ! (Suc b + 1) - P ! q ! Suc b))"
proof -
  have b: "b < mx - 1" using assms(1) by simp
  have o: "np_diff (slice 0 mx old) ! b = old ! Suc b - old ! b"
    using assms(1,2) by (simp add: nth_np_diff length_slice nth_slice)
  have n: "np_diff (slice 1 (mx + 1) new) ! b = new ! (Suc b + 1) - new ! Suc b"
    using assms(1,3) by (simp add: nth_np_diff length_slice nth_slice)
  have d: "np_dot Qi (map (\<lambda>c. np_diff (slice 1 (length c) c)) P) b
      = (\<Sum>q\<leftarrow>[0..<length Qi]. Qi ! q * (P ! q ! (Suc b + 1) - P ! q ! Suc b))"
    unfolding np_dot_def
  proof (rule sum_list_cong_upt)
    fix q assume q: "q < length Qi"
    then have "map (\<lambda>c. np_diff (slice 1 (length c) c)) P ! q ! b
        = np_diff (slice 1 (length (P ! q)) (P ! q)) ! b"
      using assms(5) by simp
    also have "\<dots> = P ! q ! (Suc b + 1) - P ! q ! Suc b"
      using assms(1) assms(4)[OF q] by (simp add: nth_np_diff length_slice nth_slice)
    finally show "Qi ! q * map (\<lambda>c. np_diff (slice 1 (length c) c)) P ! q ! b
        = Qi ! q * (P ! q ! (Suc b + 1) - P ! q ! Suc b)" by simp
  qed
  show ?thesis
    using b o n d by (simp add: water_balance_def del: upt_Suc)
qed

subsection \<open>The columns a timestep writes\<close>

lemma timestep_columns:
  assumes "shaped p" "shape_inv p st" "0 < max_age p" "0 < n_substeps p"
    "i < timeseries_length p" "full_outputs p"
  shows "ST (timestep p i st) ! i = ST st ! i"
    "ST (timestep p i st) ! (i + 1) =
       strided (n_substeps p) (STn (substeps p i (n_substeps p) st))"
    "PQ (timestep p i st) ! (i + 1) = map np_cumsum (PQ (substeps p i (n_substeps p) st) ! (i + 1))"
    "WaterBalance (timestep p i st) ! i =
       water_balance (max_age p) (dt p) (J p ! i) (Q p ! i) (ST (timestep p i st) ! i)
         (ST (timestep p i st) ! (i + 1)) (PQ (timestep p i st) ! (i + 1))"
proof -
  let ?s = "substeps p i (n_substeps p) st"
  have inv: "shape_inv p ?s" using assms by (intro shape_inv_substeps)
  have l1: "i + 1 < length (ST st)" "i < length (WaterBalance st)"
    using assms(2,5,6) by (simp_all add: shape_inv_def)
  have l2: "i + 1 < length (PQ ?s)" "length (STn ?s) = M_len p + 1"
    using inv assms(5,6) by (simp_all add: shape_inv_def)
  show "ST (timestep p i st) ! i = ST st ! i"
    using assms(6) by (simp add: timestep_fields)
  show c: "ST (timestep p i st) ! (i + 1) = strided (n_substeps p) (STn ?s)"
    using assms(6) l1 l2 by (simp add: timestep_fields slice_def)
  show d: "PQ (timestep p i st) ! (i + 1) = map np_cumsum (PQ ?s ! (i + 1))"
    using assms(6) l2 by (simp add: timestep_fields)
  show "WaterBalance (timestep p i st) ! i =
       water_balance (max_age p) (dt p) (J p ! i) (Q p ! i) (ST (timestep p i st) ! i)
         (ST (timestep p i st) ! (i + 1)) (PQ (timestep p i st) ! (i + 1))"
    unfolding d using assms(6) l1 by (simp add: timestep_fields(3))
qed

text \<open>What the returned arrays hold for timestep \<open>i\<close>, in terms of the state after it.\<close>

lemma returned_columns:
  assumes "solve_RK4 p = Inr r" "full_outputs p" "shaped p" "i < timeseries_length p"
  obtains st0 where "ST_init p = Some st0" "0 < n_substeps p" "0 < max_age p"
    "shape_inv p (timesteps p i (init_state p st0))"
    "shape_inv p (timesteps p (Suc i) (init_state p st0))"
    "ST r ! i = ST (timesteps p (Suc i) (init_state p st0)) ! i"
    "ST r ! (i + 1) = ST (timesteps p (Suc i) (init_state p st0)) ! (i + 1)"
    "PQ r ! (i + 1) = PQ (timesteps p (Suc i) (init_state p st0)) ! (i + 1)"
    "WaterBalance r ! i = WaterBalance (timesteps p (Suc i) (init_state p st0)) ! i"
    "C_Q r ! i = C_Q (timesteps p (Suc i) (init_state p st0)) ! i"
proof -
  from assms(1) obtain st0 where s: "ST_init p = Some st0" "st0 \<noteq> []" "0 < n_substeps p"
      "r = timesteps p (timeseries_length p) (init_state p st0)"
      "0 < timeseries_length p \<longrightarrow> 0 < max_age p"
    by (rule solve_RK4_Inr)
  let ?I = "init_state p st0"
  have mx: "0 < max_age p" using s(5) assms(4) by simp
  have inv0: "shape_inv p ?I" using assms(3) s(1-3) by (rule shape_inv_init)
  have inv: "shape_inv p (timesteps p j ?I)" if "j \<le> timeseries_length p" for j
    using assms(3) inv0 mx that s(3) by (rule shape_inv_timesteps)
  have a: "ST r ! i = ST (timesteps p (Suc i) ?I) ! i"
    using final_column(1)[where t = i and T = "timeseries_length p" and p = p and st = ?I]
      assms(2,4) s(4) by (simp add: timestep_fields)
  have b: "ST r ! (i + 1) = ST (timesteps p (Suc i) ?I) ! (i + 1)"
    using final_column(1)[where t = "Suc i" and T = "timeseries_length p" and p = p and st = ?I]
      assms(2,4) s(4) by simp
  have c: "PQ r ! (i + 1) = PQ (timesteps p (Suc i) ?I) ! (i + 1)"
    using final_column(2)[where t = "Suc i" and T = "timeseries_length p" and p = p and st = ?I]
      assms(2,4) s(4) by simp
  have d: "WaterBalance r ! i = WaterBalance (timesteps p (Suc i) ?I) ! i"
    using final_WB[where i = i and T = "timeseries_length p" and p = p and st = ?I]
      assms(2,4) s(4) by simp
  have e: "C_Q r ! i = C_Q (timesteps p (Suc i) ?I) ! i"
    using final_C_Q[where i = i and T = "timeseries_length p" and p = p and st = ?I]
      assms(4) s(4) by simp
  show ?thesis
    using that[OF s(1) s(3) mx inv[of i] inv[of "Suc i"] a b c d e] assms(4) by simp
qed

subsection \<open>Folding the substeps into output ages\<close>

lemma length_pQn_col:
  assumes "shaped p" "shape_inv p st" "q < numflux p"
  shows "length (pQn p i (begin_substep p st) ! q) = M_len p"
proof -
  have "length (PQn_new p i (begin_substep p st) ! q) = M_len p + 1"
    using assms by (intro length_PQn_new_col) (simp_all add: shape_inv_def)
  moreover have "q < length (PQn_new p i (begin_substep p st))"
    using assms(2,3) by (simp add: shape_inv_def)
  ultimately show ?thesis by (simp add: pQn_def)
qed

lemma sum_list_divide: "(\<Sum>k\<leftarrow>ks. f k / (c :: real)) = (\<Sum>k\<leftarrow>ks. f k) / c"
  by (induction ks) (simp_all add: add_divide_distrib)

lemma nth_zeros [simp]: "a < n \<Longrightarrow> zeros n ! a = 0"
  by (simp add: zeros_def)

lemma substeps_PQ_acc:
  assumes "shaped p" "shape_inv p st" "0 < max_age p" "i < timeseries_length p"
    "full_outputs p" "q < numflux p" "1 \<le> a" "a \<le> max_age p"
  shows "k \<le> n_substeps p \<Longrightarrow>
      PQ (substeps p i k st) ! (i + 1) ! q ! a =
        PQ st ! (i + 1) ! q ! a +
        (\<Sum>k'\<leftarrow>[0..<k]. (\<Sum>c\<leftarrow>owned_cells (n_substeps p) k' a.
                              pQn p i (begin_substep p (substeps p i k' st)) ! q ! c)
                         / real (n_substeps p))"
proof (induction k)
  case 0
  show ?case by simp
next
  case (Suc k)
  let ?s = "substeps p i k st"
  have inv: "shape_inv p ?s" using assms(1-4) by (intro shape_inv_substeps)
  have len: "i + 1 < length (PQ ?s)" using inv assms(4,5) by (simp add: shape_inv_def)
  have step: "PQ (substeps p i (Suc k) st) ! (i + 1) ! q =
      fold_ages (n_substeps p) k (max_age p) (pQn p i (begin_substep p ?s) ! q)
        (PQ ?s ! (i + 1) ! q)"
    using assms(5,6) len by (simp add: substep_fields)
  have k: "k < n_substeps p" "k \<le> n_substeps p" using Suc.prems by simp_all
  have x: "length (pQn p i (begin_substep p ?s) ! q) = max_age p * n_substeps p"
    using length_pQn_col[OF assms(1) inv assms(6)] by (simp add: M_len_def)
  show ?case
    unfolding step fold_ages_nth[OF k(1) x assms(7,8)]
    using Suc.IH[OF k(2)] by simp
qed

text \<open>
  Over the reals, where the running sum of line 460 is not rounded, the increment of the
  returned \<^verbatim>\<open>PQ[:, i+1, q]\<close> at an age is the sum, over the substeps, of the cells of
  \<^verbatim>\<open>pQn[:, q]\<close> that belong to the age, divided by \<^verbatim>\<open>n_substeps\<close>.
\<close>

lemma PQ_increment_exact:
  assumes "solve_RK4 p = Inr r" and "ST_init p = Some st0" and "full_outputs p"
    and "shaped p" and "i < timeseries_length p" and "q < numflux p"
    and "1 \<le> a" and "a \<le> max_age p"
  shows "PQ r ! (i + 1) ! q ! a - PQ r ! (i + 1) ! q ! (a - 1) =
           (\<Sum>k\<leftarrow>[0..<n_substeps p]. \<Sum>c\<leftarrow>owned_cells (n_substeps p) k a.
               pQn_at p st0 i k ! q ! c) / real (n_substeps p)"
proof -
  from assms(1,3,4,5) obtain st0' where s: "ST_init p = Some st0'" "0 < n_substeps p"
    "0 < max_age p"
    "shape_inv p (timesteps p i (init_state p st0'))"
    "shape_inv p (timesteps p (Suc i) (init_state p st0'))"
    "ST r ! i = ST (timesteps p (Suc i) (init_state p st0')) ! i"
    "ST r ! (i + 1) = ST (timesteps p (Suc i) (init_state p st0')) ! (i + 1)"
    "PQ r ! (i + 1) = PQ (timesteps p (Suc i) (init_state p st0')) ! (i + 1)"
    by (rule returned_columns)
  have eq: "st0' = st0" using s(1) assms(2) by simp
  let ?I = "init_state p st0"
  let ?S = "timesteps p i ?I"
  let ?E = "substeps p i (n_substeps p) ?S"
  let ?acc = "PQ ?E ! (i + 1) ! q"
  have invS: "shape_inv p ?S" using s(4) eq by simp
  have invE: "shape_inv p ?E" using assms(4) invS s(3) assms(5) by (rule shape_inv_substeps)
  have col: "PQ r ! (i + 1) = map np_cumsum (PQ ?E ! (i + 1))"
    unfolding s(8) eq
    using timestep_columns(3)[OF assms(4) invS s(3) s(2) assms(5) assms(3)] by simp
  have lens: "length (PQ ?E ! (i + 1)) = numflux p" "length ?acc = max_age p + 1"
    using invE assms(3,5,6) by (simp_all add: shape_inv_def)
  have cum: "PQ r ! (i + 1) ! q = np_cumsum ?acc"
    unfolding col using lens(1) assms(6) by simp
  have start: "PQ ?S ! (i + 1) ! q ! a = 0"
  proof -
    have "PQ ?S ! (i + 1) = PQ ?I ! (i + 1)"
      using assms(3) by (intro timesteps_PQ_later) simp_all
    also have "\<dots> = zeros2 (numflux p) (max_age p + 1)"
      using assms(3,5) by (simp add: init_state_fields)
    finally show ?thesis using assms(6,8) by simp
  qed
  have "PQ r ! (i + 1) ! q ! a - PQ r ! (i + 1) ! q ! (a - 1) = ?acc ! a"
    unfolding cum using assms(7,8) lens(2) by (intro np_cumsum_step) simp_all
  also have "\<dots> = PQ ?S ! (i + 1) ! q ! a +
        (\<Sum>k'\<leftarrow>[0..<n_substeps p]. (\<Sum>c\<leftarrow>owned_cells (n_substeps p) k' a.
                              pQn p i (begin_substep p (substeps p i k' ?S)) ! q ! c)
                         / real (n_substeps p))"
    using substeps_PQ_acc[OF assms(4) invS s(3) assms(5) assms(3) assms(6) assms(7,8),
        of "n_substeps p"] by simp
  also have "\<dots> = (\<Sum>k\<leftarrow>[0..<n_substeps p]. \<Sum>c\<leftarrow>owned_cells (n_substeps p) k a.
               pQn_at p st0 i k ! q ! c) / real (n_substeps p)"
    unfolding start by (simp add: sum_list_divide pQn_at_def state_at_def)
  finally show ?thesis .
qed

subsection \<open>Non-negative storage\<close>












text \<open>
  The first column of \<^verbatim>\<open>ST\<close> is every \<^verbatim>\<open>n_substeps\<close>-th entry of the refined initial
  profile; no timestep writes it again.
\<close>

lemma first_column_sampled:
  assumes "solve_RK4 p = Inr r" and "ST_init p = Some st0"
  shows "ST r ! 0 = strided (n_substeps p) (init_STn (n_substeps p) st0)"
proof -
  from assms(1) obtain st0' where s: "ST_init p = Some st0'" "st0' \<noteq> []" "0 < n_substeps p"
      "r = timesteps p (timeseries_length p) (init_state p st0')"
      "0 < timeseries_length p \<longrightarrow> 0 < max_age p" "full_outputs p"
    by (rule solve_RK4_Inr)
  with assms(2) have eq: "st0' = st0" by simp
  have "ST r ! 0 = ST (init_state p st0) ! 0"
    using final_column(1)[where t = 0 and T = "timeseries_length p" and p = p
        and st = "init_state p st0"] s(6) s(4) eq
    by simp
  also have "\<dots> = strided (n_substeps p) (slice 0 (M_len p + 1) (init_STn (n_substeps p) st0))"
    using s(6) by (simp add: init_state_fields)
  also have "slice 0 (M_len p + 1) (init_STn (n_substeps p) st0) = init_STn (n_substeps p) st0"
    using length_init_STn_M[OF assms(2)] s(2) eq by (simp add: slice_def)
  finally show ?thesis .
qed


subsection \<open>An outflow without flow\<close>

lemma map_zero: "map (\<lambda>x. 0) xs = zeros (length xs)"
  by (simp add: zeros_def map_replicate_const)

lemma np_diff_zeros: "np_diff (zeros m) = zeros (m - 1)"
  by (rule nth_equalityI) (simp_all add: nth_np_diff)

lemma np_cumsum_zeros: "np_cumsum (zeros m) = zeros m"
  by (rule nth_equalityI) (simp_all add: nth_np_cumsum zeros_def sum_list_replicate)

lemma sum_list_slice_zeros: "sum_list (slice lo hi (zeros m)) = 0"
  by (simp add: slice_def zeros_def sum_list_replicate)

lemma sum_list_slice_slice_zeros: "sum_list (slice a b (slice lo hi (zeros m))) = 0"
  by (simp add: slice_def zeros_def sum_list_replicate)

lemma fold_ages_zeros:
  assumes "0 < mx"
  shows "fold_ages n k mx (zeros m) (zeros (mx + 1)) = zeros (mx + 1)"
proof -
  have "map (\<lambda>r. zeros (mx + 1) ! (r + 2)
               + row_sums (mx - 1) n (slice (k + 1) (mx * n - (n - k - 1)) (zeros m)) ! r / real n)
           [0..<mx - 1] = map (\<lambda>r. 0) [0..<mx - 1]"
    by (rule map_cong) (simp_all add: nth_row_sums sum_list_slice_slice_zeros)
  then show ?thesis
    using assms
    by (cases mx) (simp_all add: fold_ages_def sum_list_slice_zeros map_zero, simp add: zeros_def)
qed

lemma PQn_new_zero_flow:
  assumes "q < length (PQn st)" "Q p ! i ! q = 0"
  shows "PQn_new p i st ! q = zeros (length (PQn st ! q))"
  using assms by (simp add: nth_PQn_new map_zero)

lemma substeps_zero_flow:
  assumes "shaped p" "shape_inv p st" "0 < max_age p" "i < timeseries_length p"
    "q < numflux p" "Q p ! i ! q = 0"
  shows "k \<le> n_substeps p \<Longrightarrow>
    (0 < k \<longrightarrow> PQn (substeps p i k st) ! q = zeros (M_len p + 1)) \<and>
    (full_outputs p \<longrightarrow> PQ st ! (i + 1) ! q = zeros (max_age p + 1) \<longrightarrow>
       PQ (substeps p i k st) ! (i + 1) ! q = zeros (max_age p + 1)) \<and>
    C_Q (substeps p i k st) ! i ! q = C_Q st ! i ! q"
proof (induction k)
  case 0
  show ?case by simp
next
  case (Suc k)
  let ?s = "substeps p i k st"
  have k: "k \<le> n_substeps p" using Suc.prems by simp
  note IH = Suc.IH[OF k]
  have inv: "shape_inv p ?s" using assms(1-4) by (intro shape_inv_substeps)
  have lens: "length (PQn ?s) = numflux p" "length (PQn ?s ! q) = M_len p + 1"
    "length (C_Q ?s) = timeseries_length p" "length (C_Q ?s ! i) = numflux p"
    using inv assms(4,5) by (simp_all add: shape_inv_def)
  have pq: "PQn_new p i (begin_substep p ?s) ! q = zeros (M_len p + 1)"
    using PQn_new_zero_flow[of q "begin_substep p ?s" p i] assms(5,6) lens by simp
  have a: "PQn (substeps p i (Suc k) st) ! q = zeros (M_len p + 1)"
    using pq by (simp add: substep_fields)
  have x: "pQn p i (begin_substep p ?s) ! q = zeros (M_len p)"
    using pq assms(5) lens(1) by (simp add: pQn_def np_diff_zeros)
  have b: "PQ (substeps p i (Suc k) st) ! (i + 1) ! q = zeros (max_age p + 1)"
    if f: "full_outputs p" and z: "PQ st ! (i + 1) ! q = zeros (max_age p + 1)"
  proof -
    have len: "i + 1 < length (PQ ?s)" using inv assms(4) f by (simp add: shape_inv_def)
    have "PQ ?s ! (i + 1) ! q = zeros (max_age p + 1)" using IH f z by simp
    then show ?thesis
      using f len assms(5) x fold_ages_zeros[OF assms(3)] by (simp add: substep_fields)
  qed
  have c: "C_Q (substeps p i (Suc k) st) ! i ! q = C_Q st ! i ! q"
  proof -
    have "add_C_Q (n_substeps p) (Q p ! i) (mQn p i (begin_substep p ?s)) (C_Q ?s ! i) ! q
        = C_Q ?s ! i ! q"
      using assms(5,6) lens(4) by (intro add_C_Q_no_flow) simp_all
    then show ?thesis
      using IH assms(4) lens(3) by (simp add: substep_fields)
  qed
  from a b c show ?case by blast
qed


lemma nth_add_C_old:
  "q < length row \<Longrightarrow> s < length (row ! q) \<Longrightarrow>
     add_C_old mx al c P row ! q ! s = row ! q ! s + al ! q ! s * c ! s * (1 - P ! q ! mx)"
  by (simp add: add_C_old_def)

lemma timestep_zero_flow:
  assumes "shaped p" "shape_inv p st" "0 < max_age p" "0 < n_substeps p"
    "i < timeseries_length p" "q < numflux p" "Q p ! i ! q = 0"
    "full_outputs p \<longrightarrow> PQ st ! (i + 1) ! q = zeros (max_age p + 1)"
    "C_Q st ! i ! q = zeros (numsol p)"
  shows "full_outputs p \<longrightarrow> PQ (timestep p i st) ! (i + 1) ! q = zeros (max_age p + 1)"
    and "\<forall>s<numsol p. C_Q (timestep p i st) ! i ! q ! s =
           (if full_outputs p then alpha p ! i ! q ! s * C_old_vals p ! s else 0)"
proof -
  let ?E = "substeps p i (n_substeps p) st"
  have invE: "shape_inv p ?E" using assms(1-3,5) by (rule shape_inv_substeps)
  note z = substeps_zero_flow[OF assms(1-3,5-7), of "n_substeps p"]
  have cq: "C_Q ?E ! i ! q = zeros (numsol p)" using z assms(9) by simp
  have lens: "length (C_Q ?E) = timeseries_length p" "length (C_Q ?E ! i) = numflux p"
    "length (C_Q ?E ! i ! q) = numsol p"
    using invE assms(5,6) by (simp_all add: shape_inv_def)
  have pq: "PQ (timestep p i st) ! (i + 1) ! q = zeros (max_age p + 1)" if f: "full_outputs p"
  proof -
    have "PQ ?E ! (i + 1) ! q = zeros (max_age p + 1)" using z f assms(8) by simp
    moreover have "length (PQ ?E ! (i + 1)) = numflux p"
      using invE f assms(5) by (simp add: shape_inv_def)
    ultimately show ?thesis
      using timestep_columns(3)[OF assms(1-5) f] assms(6) by (simp add: np_cumsum_zeros)
  qed
  then show "full_outputs p \<longrightarrow> PQ (timestep p i st) ! (i + 1) ! q = zeros (max_age p + 1)"
    by simp
  show "\<forall>s<numsol p. C_Q (timestep p i st) ! i ! q ! s =
           (if full_outputs p then alpha p ! i ! q ! s * C_old_vals p ! s else 0)"
  proof (intro allI impI)
    fix s assume s: "s < numsol p"
    show "C_Q (timestep p i st) ! i ! q ! s =
           (if full_outputs p then alpha p ! i ! q ! s * C_old_vals p ! s else 0)"
    proof (cases "full_outputs p")
      case False
      then show ?thesis using cq s by (simp add: timestep_fields)
    next
      case True
      have col: "map np_cumsum (PQ ?E ! (i + 1)) ! q = zeros (max_age p + 1)"
        using pq[OF True] timestep_columns(3)[OF assms(1-5) True] by simp
      have "C_Q (timestep p i st) ! i ! q ! s =
          add_C_old (max_age p) (alpha p ! i) (C_old_vals p) (map np_cumsum (PQ ?E ! (i + 1)))
            (C_Q ?E ! i) ! q ! s"
        using True s lens(1) assms(5) by (simp add: timestep_fields)
      also have "\<dots> = C_Q ?E ! i ! q ! s
          + alpha p ! i ! q ! s * C_old_vals p ! s
            * (1 - map np_cumsum (PQ ?E ! (i + 1)) ! q ! max_age p)"
        using lens assms(6) s by (intro nth_add_C_old) simp_all
      finally show ?thesis using True cq s unfolding col by simp
    qed
  qed
qed

section \<open>The example runs, step by step\<close>

text \<open>
  The run \<open>demo\<close> is evaluated one stage at a time: each lemma rewrites with the values of
  the stages before it.
\<close>

lemma demo_dims:
  "numflux demo = Suc (Suc 0)" "numsol demo = Suc 0" "max_age demo = Suc 0"
  "M_len demo = Suc 0" "h_sub demo = 1" "timeseries_length demo = Suc 0"
  "n_substeps demo = Suc 0" "full_outputs demo"
  by (simp_all add: demo_def numflux_def numsol_def max_age_def M_len_def h_sub_def
        timeseries_length_def)

lemma demo_rows:
  "J demo ! 0 = 1" "Q demo ! 0 = [10, 0]" "alpha demo ! 0 = [[1], [1]]" "k1 demo ! 0 = [0]"
  "C_eq demo ! 0 = [0]" "C_J_row demo 0 = [1]" "C_old_vals demo = [5]" "dt demo = 1"
  by (simp_all add: demo_def C_J_row_def C_old_vals_def)

lemma demo_funs: "rSAS_fun demo = [uniform_cdf, uniform_cdf]" "CS_init demo = None"
  "ST_init demo = Some [0, 1]" "C_old demo = Some [5]"
  by (simp_all add: demo_def)

lemma demo_cdf: "cdf_cols demo i [x, y] = [[min 1 (max 0 x), min 1 (max 0 y)], [min 1 (max 0 x), min 1 (max 0 y)]]"
  by (simp add: cdf_cols_def demo_dims uniform_cdf_def demo_funs)

lemma demo_init_state: "init_state demo [0, 1] = demo_init"
  by (simp add: init_state_def Let_def demo_dims demo_cdf init_STn_def np_cumsum_def np_repeat_def
       init_mSn_def zeros_def zeros2_def zeros3_def strided_def slice_def demo_init_def demo_funs)

lemma demo_begin: "begin_substep demo demo_init = demo_start"
  by (simp add: begin_substep_def demo_init_def demo_start_def demo_dims slice_def)

lemma demo_start_fields:
  "STn demo_start = [0, 0]" "STp demo_start = [0, 1]" "sTn demo_start = [1]"
  "PQn demo_start = [[0, 1], [0, 1]]" "mSn demo_start = [[0]]" "mSp demo_start = [[0]]"
  "C_Q demo_start = [[[0], [0]]]" "PQ demo_start = [[[0, 1], [0, 1]], [[0, 0], [0, 0]]]"
  by (simp_all add: demo_start_def)

lemma demo_K1: "K1 demo 0 demo_start =
  \<lparr> PQj = [[0, 1], [0, 1]], sTt = [1], pQt = [[0], [0]], mQj = [[[0]], [[0]]],
    STt = [1/2, 0], mRj = [[0]], mSt = [[1/2]] \<rparr>"
  by (simp add: K1_def Let_def demo_dims demo_rows demo_cdf demo_start_fields np_roll1_def density_def
      increments_def mQ_stage_def mQ_col_def mQ_quotient_def mQ_numerator_def np_divide_def np_where_def
      stored_def trial_ST_def np_dot_def mR_stage_def trial_mS_def add_at0_def)

lemma demo_K2: "K2 demo 0 demo_start =
  \<lparr> PQj = [[1/2, 0], [1/2, 0]], sTt = [1/2], pQt = [[1/2], [1/2]], mQj = [[[5]], [[0]]],
    STt = [0, 3/2], mRj = [[0]], mSt = [[-2]] \<rparr>"
  by (simp add: K2_def Let_def demo_K1 demo_dims demo_rows demo_cdf demo_start_fields density_def
      increments_def mQ_stage_def mQ_col_def mQ_quotient_def mQ_numerator_def np_divide_def np_where_def
      stored_def trial_ST_def np_dot_def mR_stage_def trial_mS_def add_at0_def)

lemma demo_K3: "K3 demo 0 demo_start =
  \<lparr> PQj = [[0, 1], [0, 1]], sTt = [0], pQt = [[1/2], [1/2]], mQj = [[[0]], [[0]]],
    STt = [1/2, 0], mRj = [[0]], mSt = [[1]] \<rparr>"
  by (simp add: K3_def Let_def demo_K2 demo_dims demo_rows demo_cdf demo_start_fields density_def
      increments_def mQ_stage_def mQ_col_def mQ_quotient_def mQ_numerator_def np_divide_def np_where_def
      stored_def trial_ST_def np_dot_def mR_stage_def trial_mS_def add_at0_def)

lemma demo_K4: "K4 demo 0 demo_start =
  \<lparr> PQj = [[1/2, 0], [1/2, 0]], sTt = [1/2], pQt = [[1/2], [1/2]], mQj = [[[10]], [[0]]],
    STt = [1/2, 0], mRj = [[0]], mSt = [[1]] \<rparr>"
  by (simp add: K4_def Let_def demo_K2 demo_K3 demo_dims demo_rows demo_cdf demo_start_fields density_def
      increments_def mQ_stage_def mQ_col_def mQ_quotient_def mQ_numerator_def np_divide_def np_where_def
      stored_def trial_ST_def np_dot_def mR_stage_def trial_mS_def add_at0_def)

lemma demo_PQn_new: "PQn_new demo 0 demo_start = [[0, 1/4], [0, 0]]"
  by (simp add: PQn_new_def new_PQn_def rk4_mean_def demo_K1 demo_K2 demo_K3 demo_K4 demo_dims
       demo_rows demo_start_fields)

lemma demo_STn_new: "STn_new demo 0 demo_start = [0, -3/2]"
  by (simp add: STn_new_def new_STn_def demo_PQn_new demo_dims demo_rows demo_start_fields np_dot_def
        slice_def)

lemma demo_pQn: "pQn demo 0 demo_start = [[1/4], [0]]"
  by (simp add: pQn_def demo_PQn_new)

lemma demo_mQn: "mQn demo 0 demo_start = [[[10/3]], [[0]]]"
  by (simp add: mQn_def rk4_mean_def demo_K1 demo_K2 demo_K3 demo_K4 demo_dims)

lemma demo_mRn: "mRn demo 0 demo_start = [[0]]"
  by (simp add: mRn_def rk4_mean_def demo_K1 demo_K2 demo_K3 demo_K4 demo_dims)

lemma demo_substep: "substep demo 0 0 demo_init = demo_mid"
  unfolding substep_def Let_def demo_begin demo_STn_new demo_PQn_new demo_pQn demo_mQn demo_mRn
  by (simp add: demo_dims demo_rows demo_start_def demo_mid_def new_mSn_def add_at0_def add_C_Q_def
       C_Q_step_def C_Q_term_def scalar_divide_def stored_def fold_ages_def row_sums_def slice_def)

lemma demo_timestep: "timestep demo 0 demo_init = demo_final"
  by (simp add: timestep_def Let_def demo_substep demo_dims demo_rows demo_mid_def demo_final_def
       strided_def slice_def np_cumsum_def water_balance_def add_C_old_def np_dot_def)

lemma demo_solve: "solve_RK4 demo = Inr demo_final"
  by (simp add: solve_RK4_def demo_dims demo_init_state demo_timestep demo_funs)

lemma demo_shaped: "shaped demo"
  by (simp add: shaped_def demo_dims uniform_cdf_def less_Suc_eq)
     (simp add: demo_def uniform_cdf_def)

lemma demo_stage_ready: "stage_ready demo demo_start"
  by (simp add: stage_ready_def demo_dims demo_start_fields)

lemma demo2_dims:
  "numflux demo2 = Suc 0" "numsol demo2 = 0" "max_age demo2 = Suc (Suc 0)"
  "M_len demo2 = 4" "h_sub demo2 = 1 / 2" "timeseries_length demo2 = Suc (Suc 0)"
  "n_substeps demo2 = Suc (Suc 0)" "full_outputs demo2"
  by (simp_all add: demo2_def numflux_def numsol_def max_age_def M_len_def h_sub_def
        timeseries_length_def)

lemma demo2_rows:
  "J demo2 ! 0 = 1" "Q demo2 ! 0 = [1 / 2]" "dt demo2 = 1" "ST_init demo2 = Some [0, 1, 2]"
  "J demo2 ! 1 = 1" "Q demo2 ! 1 = [1]"
  by (simp_all add: demo2_def)

lemma demo2_shaped: "shaped demo2"
  by (simp add: shaped_def demo2_dims)
     (auto simp: demo2_def uniform_cdf_def less_Suc_eq)

lemma demo2_solve: "solve_RK4 demo2 = Inr demo2_final"
  by (simp add: solve_RK4_def demo2_rows demo2_dims demo2_final_def numeral_2_eq_2)

text \<open>
  The run \<open>flat\<close> in \<^verbatim>\<open>float64\<close> arithmetic. The literals \<^verbatim>\<open>0.4\<close> and \<^verbatim>\<open>0.9\<close> are the
  numbers \<open>3602879701896397 / 2 ^ 53\<close> and \<open>8106479329266893 / 2 ^ 53\<close>; the mean of four
  times \<^verbatim>\<open>0.4\<close> is one unit in the last place below \<^verbatim>\<open>0.4\<close>.
\<close>

lemma flat_cdf_val: "flat_cdf = [0, 3602879701896397 / 2 ^ 53, 8106479329266893 / 2 ^ 53, 1]"
  by (simp add: flat_cdf_def fl64_ranges pow2_def round_even_def Let_def)

lemma flat_mean: "rk4_mean64 flat_cdf flat_cdf flat_cdf flat_cdf =
    [0, 7205759403792793 / 2 ^ 54, 8106479329266893 / 2 ^ 53, 1]"
  unfolding flat_cdf_val
  by (simp add: rk4_mean64_def) (simp add: fl64_ranges pow2_def round_even_def Let_def)

lemma flat_pQn_val: "flat_pQn = [0, 7205759403792793 / 2 ^ 54, 1 / 2]"
  unfolding flat_pQn_def pQn64_def flat_mean
  by (simp add: flat_cdf_val) (simp add: fl64_ranges pow2_def round_even_def Let_def)

lemma flat_accumulators:
  "fold_ages64 1 0 3 flat_pQn (zeros 4) = [0, 0, 7205759403792793 / 2 ^ 54, 1 / 2]"
  unfolding flat_pQn_val
  by (simp add: fold_ages64_def row_sums64_def sum64_def slice_def zeros_def numeral_2_eq_2)
     (simp add: fl64_ranges pow2_def round_even_def Let_def)

lemma flat_PQ_val: "flat_PQ = [0, 0, 7205759403792793 / 2 ^ 54, 2026619832316723 / 2 ^ 51]"
  unfolding flat_PQ_def flat_accumulators
  by (simp add: fl64_ranges pow2_def round_even_def Let_def)

text \<open>
  The refinement of the initial profile \<^verbatim>\<open>np.array([0., 0.1])\<close> with three substeps in
  \<^verbatim>\<open>float64\<close> arithmetic. The literal \<^verbatim>\<open>0.1\<close> is \<open>3602879701896397 / 2 ^ 55\<close>; the running sum
  of three of them is rounded up, and so is its third.
\<close>

lemma tenth_val: "fl64 (1 / 10) = 3602879701896397 / 2 ^ 55"
  by (simp add: fl64_ranges pow2_def round_even_def Let_def)

lemma tenth_diff: "np_diff64 [0, fl64 (1 / 10)] = [3602879701896397 / 2 ^ 55]"
  by (simp add: tenth_val) (simp add: fl64_ranges pow2_def round_even_def Let_def)

lemma np_repeat_3: "np_repeat 3 [x] = [x, x, x]"
  by (simp add: np_repeat_def numeral_3_eq_3)

lemma tenth_cumsum:
  "np_cumsum64 [3602879701896397 / 2 ^ 55, 3602879701896397 / 2 ^ 55, 3602879701896397 / 2 ^ 55] =
     [3602879701896397 / 2 ^ 55, 3602879701896397 / 2 ^ 54, 1351079888211149 / 2 ^ 52]"
  by (simp add: fl64_ranges pow2_def round_even_def Let_def)

lemma tenth_init_STn64: "init_STn64 3 [0, fl64 (1 / 10)] =
   [0, 4803839602528529 / 2 ^ 57, 4803839602528529 / 2 ^ 56, 7205759403792795 / 2 ^ 56]"
  unfolding init_STn64_def tenth_diff np_repeat_3 tenth_cumsum
  by (simp add: fl64_ranges pow2_def round_even_def Let_def)

lemma tenth_first_column: "first_column64 3 [0, fl64 (1 / 10)] = [0, 7205759403792795 / 2 ^ 56]"
  unfolding first_column64_def tenth_init_STn64
  by (simp add: strided_def slice_def upt_conv_Cons)

section \<open>Claims about the stages of a substep\<close>

text \<open>
  Claim C3. In each of the four stages the density is the forward difference of that
  stage's cumulative distribution, and its entry for the freshest age is that stage's own
  \<^verbatim>\<open>PQj[0,q]\<close>. The source does this in stages 1 and 2 (lines 377 and 392) and writes
  \<^verbatim>\<open>pQt[0,:] = PQ2[0,:]\<close> in stages 3 and 4 (lines 407 and 422). In the first substep of the
  run \<open>demo\<close> (one timestep, one substep, inflow 1, outflows 10 and 0, initial storage
  \<open>[0, 1]\<close>, uniform selection) stage 3 works with the density \<open>1/2\<close> at the freshest age,
  the value of \<^verbatim>\<open>PQ2[0,0]\<close>, while its own \<^verbatim>\<open>PQ3[0,0]\<close> is \<open>0\<close>.
\<close>

theorem C3_stage3_density_from_stage2:
  "begin_substep demo (init_state demo [0, 1]) = demo_start \<and>
   pQt (K3 demo 0 demo_start) ! 0 ! 0 = 1 / 2 \<and>
   PQj (K3 demo 0 demo_start) ! 0 ! 0 = 0 \<and>
   PQj (K2 demo 0 demo_start) ! 0 ! 0 = 1 / 2"
  by (simp add: demo_init_state demo_begin demo_K2 demo_K3)

text \<open>
  Claim C4, as stated: the guard means that a stage never divides by zero. The source
  writes the guard as \<^verbatim>\<open>np.where(sTt>0, ... / sTt, 0.)\<close>, and numpy evaluates the quotient
  for every age before it selects. In stage 3 of the first substep of \<open>demo\<close> the age
  increment of the freshest slot is 0, and the quotient is evaluated there.
\<close>

theorem C4_quotient_evaluated_at_zero:
  "begin_substep demo (init_state demo [0, 1]) = demo_start \<and>
   sTt (K3 demo 0 demo_start) ! 0 = 0 \<and>
   mQ_quotient (sTt (K3 demo 0 demo_start)) (mSt (K2 demo 0 demo_start) ! 0)
     (alpha demo ! 0 ! 0 ! 0) (Q demo ! 0 ! 0) (pQt (K3 demo 0 demo_start) ! 0) ! 0 = None"
  by (simp add: demo_init_state demo_begin demo_K2 demo_K3 demo_rows mQ_quotient_def
        mQ_numerator_def np_divide_def)

text \<open>
  Claim C4, amended. In every stage, for every age, outflow and solute, the selected
  flux is a finite number: it is
  \<^verbatim>\<open>storedMass * alpha[i,q,s] * Q[i,q] * density / ageIncrement\<close> where the age increment
  is positive and 0 elsewhere. The stored mass is \<^verbatim>\<open>mSp\<close> in stage 1 and the trial mass
  \<^verbatim>\<open>mSt\<close> of the stage before in stages 2 to 4. So no inf or nan of an empty age slot is
  ever stored in \<^verbatim>\<open>mQ1\<close> to \<^verbatim>\<open>mQ4\<close>, although the quotient is evaluated there.
\<close>

theorem C4_guarded_flux:
  assumes "shaped p" and "stage_ready p st" and "i < timeseries_length p"
    and "q < numflux p" and "s < numsol p" and "a < M_len p"
  shows
    "mQ_col (sTt (K1 p i st)) (mSp st ! s) (alpha p ! i ! q ! s) (Q p ! i ! q)
        (pQt (K1 p i st) ! q) ! a = Some (mQj (K1 p i st) ! q ! s ! a) \<and>
     mQj (K1 p i st) ! q ! s ! a =
       (if 0 < sTt (K1 p i st) ! a
        then mSp st ! s ! a * alpha p ! i ! q ! s * Q p ! i ! q * pQt (K1 p i st) ! q ! a
             / sTt (K1 p i st) ! a
        else 0) \<and>
     mQ_col (sTt (K2 p i st)) (mSt (K1 p i st) ! s) (alpha p ! i ! q ! s) (Q p ! i ! q)
        (pQt (K2 p i st) ! q) ! a = Some (mQj (K2 p i st) ! q ! s ! a) \<and>
     mQj (K2 p i st) ! q ! s ! a =
       (if 0 < sTt (K2 p i st) ! a
        then mSt (K1 p i st) ! s ! a * alpha p ! i ! q ! s * Q p ! i ! q * pQt (K2 p i st) ! q ! a
             / sTt (K2 p i st) ! a
        else 0) \<and>
     mQ_col (sTt (K3 p i st)) (mSt (K2 p i st) ! s) (alpha p ! i ! q ! s) (Q p ! i ! q)
        (pQt (K3 p i st) ! q) ! a = Some (mQj (K3 p i st) ! q ! s ! a) \<and>
     mQj (K3 p i st) ! q ! s ! a =
       (if 0 < sTt (K3 p i st) ! a
        then mSt (K2 p i st) ! s ! a * alpha p ! i ! q ! s * Q p ! i ! q * pQt (K3 p i st) ! q ! a
             / sTt (K3 p i st) ! a
        else 0) \<and>
     mQ_col (sTt (K4 p i st)) (mSt (K3 p i st) ! s) (alpha p ! i ! q ! s) (Q p ! i ! q)
        (pQt (K4 p i st) ! q) ! a = Some (mQj (K4 p i st) ! q ! s ! a) \<and>
     mQj (K4 p i st) ! q ! s ! a =
       (if 0 < sTt (K4 p i st) ! a
        then mSt (K3 p i st) ! s ! a * alpha p ! i ! q ! s * Q p ! i ! q * pQt (K4 p i st) ! q ! a
             / sTt (K4 p i st) ! a
        else 0)"
proof -
  have Qlen: "length (Q p ! i) = numflux p"
    using assms(1,3) by (simp add: shaped_def timeseries_length_def)
  have mSp: "length (mSp st) = numsol p" "length (mSp st ! s) = M_len p"
    using assms(2,5) by (simp_all add: stage_ready_def)
  note sh = stage_shapes[OF assms(1,2), where i = i]
  have 1: "mQj (K1 p i st) ! q ! s ! a =
       (if 0 < sTt (K1 p i st) ! a
        then mSp st ! s ! a * alpha p ! i ! q ! s * Q p ! i ! q * pQt (K1 p i st) ! q ! a
             / sTt (K1 p i st) ! a
        else 0)"
    using assms(4-6) Qlen mSp sh by (simp add: stage_mQj(1) nth_mQ_stage)
  have 2: "mQj (K2 p i st) ! q ! s ! a =
       (if 0 < sTt (K2 p i st) ! a
        then mSt (K1 p i st) ! s ! a * alpha p ! i ! q ! s * Q p ! i ! q * pQt (K2 p i st) ! q ! a
             / sTt (K2 p i st) ! a
        else 0)"
    using assms(4-6) Qlen sh by (simp add: stage_mQj(2) nth_mQ_stage)
  have 3: "mQj (K3 p i st) ! q ! s ! a =
       (if 0 < sTt (K3 p i st) ! a
        then mSt (K2 p i st) ! s ! a * alpha p ! i ! q ! s * Q p ! i ! q * pQt (K3 p i st) ! q ! a
             / sTt (K3 p i st) ! a
        else 0)"
    using assms(4-6) Qlen sh by (simp add: stage_mQj(3) nth_mQ_stage)
  have 4: "mQj (K4 p i st) ! q ! s ! a =
       (if 0 < sTt (K4 p i st) ! a
        then mSt (K3 p i st) ! s ! a * alpha p ! i ! q ! s * Q p ! i ! q * pQt (K4 p i st) ! q ! a
             / sTt (K4 p i st) ! a
        else 0)"
    using assms(4-6) Qlen sh by (simp add: stage_mQj(4) nth_mQ_stage)
  have c1: "mQ_col (sTt (K1 p i st)) (mSp st ! s) (alpha p ! i ! q ! s) (Q p ! i ! q)
        (pQt (K1 p i st) ! q) ! a = Some (mQj (K1 p i st) ! q ! s ! a)"
    unfolding 1 using assms(4-6) mSp sh by (intro nth_mQ_col) simp_all
  have c2: "mQ_col (sTt (K2 p i st)) (mSt (K1 p i st) ! s) (alpha p ! i ! q ! s) (Q p ! i ! q)
        (pQt (K2 p i st) ! q) ! a = Some (mQj (K2 p i st) ! q ! s ! a)"
    unfolding 2 using assms(4-6) sh by (intro nth_mQ_col) simp_all
  have c3: "mQ_col (sTt (K3 p i st)) (mSt (K2 p i st) ! s) (alpha p ! i ! q ! s) (Q p ! i ! q)
        (pQt (K3 p i st) ! q) ! a = Some (mQj (K3 p i st) ! q ! s ! a)"
    unfolding 3 using assms(4-6) sh by (intro nth_mQ_col) simp_all
  have c4: "mQ_col (sTt (K4 p i st)) (mSt (K3 p i st) ! s) (alpha p ! i ! q ! s) (Q p ! i ! q)
        (pQt (K4 p i st) ! q) ! a = Some (mQj (K4 p i st) ! q ! s ! a)"
    unfolding 4 using assms(4-6) sh by (intro nth_mQ_col) simp_all
  from 1 2 3 4 c1 c2 c3 c4 show ?thesis by blast
qed

theorem C4_guarded_flux_witness:
  "mQ_col (sTt (K3 demo 0 demo_start)) (mSt (K2 demo 0 demo_start) ! 0)
      (alpha demo ! 0 ! 0 ! 0) (Q demo ! 0 ! 0) (pQt (K3 demo 0 demo_start) ! 0) ! 0
     = Some (mQj (K3 demo 0 demo_start) ! 0 ! 0 ! 0) \<and>
   mQj (K3 demo 0 demo_start) ! 0 ! 0 ! 0 = 0 \<and>
   mQj (K4 demo 0 demo_start) ! 0 ! 0 ! 0 = 10"
proof -
  have h: "0 < timeseries_length demo" "0 < numflux demo" "0 < numsol demo" "0 < M_len demo"
    by (simp_all add: demo_dims)
  from C4_guarded_flux[OF demo_shaped demo_stage_ready h]
  show ?thesis by (simp add: demo_K3 demo_K4)
qed

text \<open>
  Claim C5. With solutes, the trial mass of stage 1 and of stage 2 is
  \<^verbatim>\<open>mSp - sum_q mQj * h/2 + mRj * h/2\<close> with \<^verbatim>\<open>J[i] * C_J[i,s] * h/2\<close> added at the
  freshest age slot only; stage 3 adds \<^verbatim>\<open>J[i] * C_J[i,s] * h\<close> there. The reaction term
  of each of the four stages is \<^verbatim>\<open>k1[i,s] * (C_eq[i,s] * sTt - storedMass)\<close>, the stored
  mass being \<^verbatim>\<open>mSp\<close> in stage 1 and the trial mass of the stage before in stages 2 to 4.
\<close>

theorem C5_solute_injection_and_reaction:
  assumes "shaped p" and "stage_ready p st" and "i < timeseries_length p"
    and "s < numsol p" and "a < M_len p"
  shows
    "mSt (K1 p i st) ! s ! a =
       mSp st ! s ! a - (\<Sum>q\<leftarrow>[0..<numflux p]. mQj (K1 p i st) ! q ! s ! a) * h_sub p / 2
       + mRj (K1 p i st) ! s ! a * h_sub p / 2
       + (if a = 0 then J p ! i * C_J_row p i ! s * (h_sub p / 2) else 0) \<and>
     mSt (K2 p i st) ! s ! a =
       mSp st ! s ! a - (\<Sum>q\<leftarrow>[0..<numflux p]. mQj (K2 p i st) ! q ! s ! a) * h_sub p / 2
       + mRj (K2 p i st) ! s ! a * h_sub p / 2
       + (if a = 0 then J p ! i * C_J_row p i ! s * (h_sub p / 2) else 0) \<and>
     mSt (K3 p i st) ! s ! a =
       mSp st ! s ! a - (\<Sum>q\<leftarrow>[0..<numflux p]. mQj (K3 p i st) ! q ! s ! a) * h_sub p / 2
       + mRj (K3 p i st) ! s ! a * h_sub p / 2
       + (if a = 0 then J p ! i * C_J_row p i ! s * h_sub p else 0) \<and>
     mRj (K1 p i st) ! s ! a =
       k1 p ! i ! s * (C_eq p ! i ! s * sTt (K1 p i st) ! a - mSp st ! s ! a) \<and>
     mRj (K2 p i st) ! s ! a =
       k1 p ! i ! s * (C_eq p ! i ! s * sTt (K2 p i st) ! a - mSt (K1 p i st) ! s ! a) \<and>
     mRj (K3 p i st) ! s ! a =
       k1 p ! i ! s * (C_eq p ! i ! s * sTt (K3 p i st) ! a - mSt (K2 p i st) ! s ! a) \<and>
     mRj (K4 p i st) ! s ! a =
       k1 p ! i ! s * (C_eq p ! i ! s * sTt (K4 p i st) ! a - mSt (K3 p i st) ! s ! a)"
proof -
  have Qlen: "length (Q p ! i) = numflux p"
    using assms(1,3) by (simp add: shaped_def timeseries_length_def)
  have mSp: "s < length (mSp st)" "a < length (mSp st ! s)"
    using assms(2,4,5) by (simp_all add: stage_ready_def)
  note sh = stage_shapes[OF assms(1,2), where i = i]
  have t1: "mSt (K1 p i st) ! s ! a =
       mSp st ! s ! a - (\<Sum>q\<leftarrow>[0..<numflux p]. mQj (K1 p i st) ! q ! s ! a) * h_sub p / 2
       + mRj (K1 p i st) ! s ! a * h_sub p / 2
       + (if a = 0 then J p ! i * C_J_row p i ! s * (h_sub p / 2) else 0)"
    unfolding stage_mSt(1) nth_trial_mS[OF mSp] by (simp add: stage_mQj(1) Qlen)
  have t2: "mSt (K2 p i st) ! s ! a =
       mSp st ! s ! a - (\<Sum>q\<leftarrow>[0..<numflux p]. mQj (K2 p i st) ! q ! s ! a) * h_sub p / 2
       + mRj (K2 p i st) ! s ! a * h_sub p / 2
       + (if a = 0 then J p ! i * C_J_row p i ! s * (h_sub p / 2) else 0)"
    unfolding stage_mSt(2) nth_trial_mS[OF mSp] by (simp add: stage_mQj(2) Qlen)
  have t3: "mSt (K3 p i st) ! s ! a =
       mSp st ! s ! a - (\<Sum>q\<leftarrow>[0..<numflux p]. mQj (K3 p i st) ! q ! s ! a) * h_sub p / 2
       + mRj (K3 p i st) ! s ! a * h_sub p / 2
       + (if a = 0 then J p ! i * C_J_row p i ! s * h_sub p else 0)"
    unfolding stage_mSt(3) nth_trial_mS[OF mSp] by (simp add: stage_mQj(3) Qlen)
  have r1: "mRj (K1 p i st) ! s ! a =
       k1 p ! i ! s * (C_eq p ! i ! s * sTt (K1 p i st) ! a - mSp st ! s ! a)"
    unfolding stage_mRj(1) using mSp(1) assms(5) sh(1) by (intro nth_mR_stage) simp_all
  have r2: "mRj (K2 p i st) ! s ! a =
       k1 p ! i ! s * (C_eq p ! i ! s * sTt (K2 p i st) ! a - mSt (K1 p i st) ! s ! a)"
    unfolding stage_mRj(2) using assms(4,5) sh(2,5) by (intro nth_mR_stage) simp_all
  have r3: "mRj (K3 p i st) ! s ! a =
       k1 p ! i ! s * (C_eq p ! i ! s * sTt (K3 p i st) ! a - mSt (K2 p i st) ! s ! a)"
    unfolding stage_mRj(3) using assms(4,5) sh(3,6) by (intro nth_mR_stage) simp_all
  have r4: "mRj (K4 p i st) ! s ! a =
       k1 p ! i ! s * (C_eq p ! i ! s * sTt (K4 p i st) ! a - mSt (K3 p i st) ! s ! a)"
    unfolding stage_mRj(4) using assms(4,5) sh(4,7) by (intro nth_mR_stage) simp_all
  from t1 t2 t3 r1 r2 r3 r4 show ?thesis by blast
qed

theorem C5_solute_injection_and_reaction_witness:
  "mSt (K1 demo 0 demo_start) ! 0 ! 0 = 1 / 2 \<and> mSt (K2 demo 0 demo_start) ! 0 ! 0 = - 2 \<and>
   mSt (K3 demo 0 demo_start) ! 0 ! 0 = 1 \<and> mRj (K4 demo 0 demo_start) ! 0 ! 0 = 0"
proof -
  have h: "0 < timeseries_length demo" "0 < numsol demo" "0 < M_len demo"
    by (simp_all add: demo_dims)
  from C5_solute_injection_and_reaction[OF demo_shaped demo_stage_ready h]
  show ?thesis
    by (simp add: demo_K1 demo_K2 demo_K3 demo_K4 demo_dims demo_rows demo_start_fields)
qed

text \<open>
  Claim C6. Each of the three trial storage profiles of a substep (stages 1, 2 and 3;
  stage 4 computes none) is, at every age,
  \<^verbatim>\<open>max(0, STp + (J[i] - sum_q Q[i,q] * PQj[a,q]) * h/2)\<close>, and so is not negative.
\<close>

theorem C6_trial_storage_clamped:
  assumes "shaped p" and "i < timeseries_length p" and "a < length (STp st)"
  shows
    "STt (K1 p i st) ! a =
       max 0 (STp st ! a
              + (J p ! i - (\<Sum>q\<leftarrow>[0..<numflux p]. Q p ! i ! q * PQj (K1 p i st) ! q ! a))
                * h_sub p / 2) \<and>
     STt (K2 p i st) ! a =
       max 0 (STp st ! a
              + (J p ! i - (\<Sum>q\<leftarrow>[0..<numflux p]. Q p ! i ! q * PQj (K2 p i st) ! q ! a))
                * h_sub p / 2) \<and>
     STt (K3 p i st) ! a =
       max 0 (STp st ! a
              + (J p ! i - (\<Sum>q\<leftarrow>[0..<numflux p]. Q p ! i ! q * PQj (K3 p i st) ! q ! a))
                * h_sub p / 2) \<and>
     0 \<le> STt (K1 p i st) ! a \<and> 0 \<le> STt (K2 p i st) ! a \<and> 0 \<le> STt (K3 p i st) ! a"
proof -
  have Qlen: "length (Q p ! i) = numflux p"
    using assms(1,2) by (simp add: shaped_def timeseries_length_def)
  show ?thesis
    using assms(3) by (simp add: stage_STt nth_trial_ST np_dot_def Qlen)
qed

theorem C6_trial_storage_clamped_witness:
  "STt (K1 demo 0 demo_start) ! 1 = max 0 (1 + (1 - (10 * 1 + 0 * 1)) * 1 / 2) \<and>
   STt (K1 demo 0 demo_start) ! 1 = 0"
proof -
  have h: "0 < timeseries_length demo" "1 < length (STp demo_start)"
    by (simp_all add: demo_dims demo_start_fields)
  from C6_trial_storage_clamped[OF demo_shaped h]
  show ?thesis by (simp add: demo_K1)
qed

section \<open>Claims about the returned arrays\<close>




text \<open>
  Claim C2, as stated: for an outflow whose flow is zero at every time, \<^verbatim>\<open>PQ[:, :, q]\<close> is
  zero and its entries of \<^verbatim>\<open>C_Q\<close> are zero. In the run \<open>demo\<close> the second outflow is zero.
  Column 0 of \<^verbatim>\<open>PQ\<close> holds the cdf of the initial storage, whatever the flow (line 350),
  and line 471 adds \<^verbatim>\<open>alpha * C_old * (1 - PQ[max_age, i+1, q])\<close> to \<^verbatim>\<open>C_Q\<close>, whatever the
  flow.
\<close>

theorem C2_zero_flow_column_not_zero:
  "solve_RK4 demo = Inr demo_final \<and> Q demo = [[10, 0]] \<and>
   PQ demo_final ! 0 ! 1 = [0, 1] \<and> C_Q demo_final ! 0 ! 1 ! 0 = 5"
  by (simp add: demo_solve) (simp add: demo_final_def demo_def)

text \<open>
  Claim C2, amended. In a run that returns, for an outflow \<open>q\<close> whose flow is zero at
  every time: every substep sets \<^verbatim>\<open>PQn[:,q]\<close> to 0, and skips the statement of line 445
  for \<open>q\<close>, so that nothing is divided by \<^verbatim>\<open>Q[i,q]\<close> and the substeps leave
  \<^verbatim>\<open>C_Q[i,q,s]\<close> at 0; \<^verbatim>\<open>PQ[:, t, q]\<close> is zero at every time \<open>t\<close> from 1 on (column 0 holds
  the cdf of the initial storage); and \<^verbatim>\<open>C_Q[i,q,s]\<close> ends as \<^verbatim>\<open>alpha[i,q,s] * C_old[s]\<close>,
  which line 471 adds.
\<close>

theorem C2_zero_flow_column:
  assumes "solve_RK4 p = Inr r" and "ST_init p = Some st0" and "shaped p"
    and "q < numflux p" and "\<forall>i<timeseries_length p. Q p ! i ! q = 0"
  shows
    "(\<forall>t. 1 \<le> t \<and> t \<le> timeseries_length p \<longrightarrow> PQ r ! t ! q = zeros (max_age p + 1)) \<and>
     (\<forall>i<timeseries_length p. \<forall>s<numsol p.
        C_Q r ! i ! q ! s = alpha p ! i ! q ! s * C_old_vals p ! s) \<and>
     (\<forall>i<timeseries_length p. \<forall>k<n_substeps p.
        PQn (state_at p st0 i (Suc k)) ! q = zeros (M_len p + 1) \<and>
        (\<forall>s<numsol p.
           C_Q_step (n_substeps p) (Q p ! i) (mQn p i (begin_substep p (state_at p st0 i k)))
             (C_Q (state_at p st0 i k) ! i) ! q ! s = Some 0))"
proof -
  from assms(1) obtain st0' where s: "ST_init p = Some st0'" "st0' \<noteq> []" "0 < n_substeps p"
      "r = timesteps p (timeseries_length p) (init_state p st0')"
      "0 < timeseries_length p \<longrightarrow> 0 < max_age p" "full_outputs p"
    by (rule solve_RK4_Inr)
  have eq: "st0' = st0" using s(1) assms(2) by simp
  note f = s(6)
  let ?I = "init_state p st0"
  have r: "r = timesteps p (timeseries_length p) ?I" using s(4) eq by simp
  have invI: "shape_inv p ?I" using assms(3,2) s(2,3) eq by (intro shape_inv_init) simp_all
  have step: "PQ r ! (i + 1) ! q = zeros (max_age p + 1) \<and>
      (\<forall>s<numsol p. C_Q r ! i ! q ! s = alpha p ! i ! q ! s * C_old_vals p ! s) \<and>
      (\<forall>k<n_substeps p.
         PQn (state_at p st0 i (Suc k)) ! q = zeros (M_len p + 1) \<and>
         (\<forall>s<numsol p.
            C_Q_step (n_substeps p) (Q p ! i) (mQn p i (begin_substep p (state_at p st0 i k)))
              (C_Q (state_at p st0 i k) ! i) ! q ! s = Some 0))"
    if i: "i < timeseries_length p" for i
  proof -
    let ?S = "timesteps p i ?I"
    have mx: "0 < max_age p" using s(5) i by simp
    have invS: "shape_inv p ?S"
      using assms(3) invI mx _ s(3) by (rule shape_inv_timesteps) (use i in simp)
    have Qz: "Q p ! i ! q = 0" using assms(5) i by simp
    have pq0: "full_outputs p \<longrightarrow> PQ ?S ! (i + 1) ! q = zeros (max_age p + 1)"
    proof
      assume "full_outputs p"
      have "PQ ?S ! (i + 1) = PQ ?I ! (i + 1)" using f by (intro timesteps_PQ_later) simp_all
      also have "\<dots> = zeros2 (numflux p) (max_age p + 1)"
        using f i by (simp add: init_state_fields)
      finally show "PQ ?S ! (i + 1) ! q = zeros (max_age p + 1)" using assms(4) by simp
    qed
    have cq0: "C_Q ?S ! i ! q = zeros (numsol p)"
    proof -
      have "C_Q ?S ! i = C_Q ?I ! i" by (intro timesteps_C_Q_later) simp
      then show ?thesis using i assms(4) by (simp add: init_state_fields)
    qed
    note t = timestep_zero_flow[OF assms(3) invS mx s(3) i assms(4) Qz pq0 cq0]
    have a: "PQ r ! (i + 1) ! q = zeros (max_age p + 1)"
    proof -
      have "PQ r ! (i + 1) = PQ (timesteps p (Suc i) ?I) ! (i + 1)"
        unfolding r
        using final_column(2)[where t = "Suc i" and T = "timeseries_length p" and p = p
            and st = ?I] f i by simp
      then show ?thesis using t(1) f by simp
    qed
    have b: "\<forall>s<numsol p. C_Q r ! i ! q ! s = alpha p ! i ! q ! s * C_old_vals p ! s"
    proof -
      have "C_Q r ! i = C_Q (timesteps p (Suc i) ?I) ! i"
        unfolding r
        using final_C_Q[where i = i and T = "timeseries_length p" and p = p and st = ?I] i
        by simp
      then show ?thesis using t(2) f by simp
    qed
    have c: "PQn (state_at p st0 i (Suc k)) ! q = zeros (M_len p + 1) \<and>
         (\<forall>s<numsol p.
            C_Q_step (n_substeps p) (Q p ! i) (mQn p i (begin_substep p (state_at p st0 i k)))
              (C_Q (state_at p st0 i k) ! i) ! q ! s = Some 0)"
      if k: "k < n_substeps p" for k
    proof -
      let ?s = "substeps p i k ?S"
      have k1: "Suc k \<le> n_substeps p" and k0: "k \<le> n_substeps p" using k by simp_all
      have inv: "shape_inv p ?s" using assms(3) invS mx i by (rule shape_inv_substeps)
      have lens: "length (C_Q ?s ! i) = numflux p" "length (C_Q ?s ! i ! q) = numsol p"
        using inv i assms(4) by (simp_all add: shape_inv_def)
      have cq: "C_Q ?s ! i ! q = zeros (numsol p)"
        using substeps_zero_flow[OF assms(3) invS mx i assms(4) Qz k0] cq0 by simp
      have "C_Q_step (n_substeps p) (Q p ! i) (mQn p i (begin_substep p ?s)) (C_Q ?s ! i) ! q ! s
          = Some 0" if "s < numsol p" for s
      proof -
        have "C_Q_step (n_substeps p) (Q p ! i) (mQn p i (begin_substep p ?s)) (C_Q ?s ! i) ! q ! s
            = Some (C_Q ?s ! i ! q ! s)"
          using lens assms(4) that Qz by (intro nth_C_Q_step_no_flow) simp_all
        then show ?thesis using cq that by simp
      qed
      moreover have "PQn (substeps p i (Suc k) ?S) ! q = zeros (M_len p + 1)"
        using substeps_zero_flow[OF assms(3) invS mx i assms(4) Qz k1] by simp
      ultimately show ?thesis by (simp add: state_at_def)
    qed
    from a b c show ?thesis by blast
  qed
  have 1: "\<forall>t. 1 \<le> t \<and> t \<le> timeseries_length p \<longrightarrow> PQ r ! t ! q = zeros (max_age p + 1)"
  proof (intro impI allI)
    fix t assume t: "1 \<le> t \<and> t \<le> timeseries_length p"
    then obtain i where i: "t = i + 1" "i < timeseries_length p" by (cases t) auto
    from step[OF i(2)] show "PQ r ! t ! q = zeros (max_age p + 1)" unfolding i(1) by simp
  qed
  from 1 step show ?thesis by blast
qed

theorem C2_zero_flow_column_witness:
  "solve_RK4 demo = Inr demo_final \<and> PQ demo_final ! 1 ! 1 = [0, 0] \<and>
   C_Q demo_final ! 0 ! 1 ! 0 = 1 * 5 \<and> PQn (state_at demo [0, 1] 0 1) ! 1 = [0, 0] \<and>
   C_Q_step 1 [10, 0] (mQn demo 0 (begin_substep demo (state_at demo [0, 1] 0 0)))
     (C_Q (state_at demo [0, 1] 0 0) ! 0) ! 1 ! 0 = Some 0"
proof -
  have h: "1 < numflux demo" "\<forall>i<timeseries_length demo. Q demo ! i ! 1 = 0"
    by (simp_all add: demo_dims demo_rows)
  note t = C2_zero_flow_column[OF demo_solve demo_funs(3) demo_shaped h]
  have t1: "1 \<le> (1 :: nat) \<and> 1 \<le> timeseries_length demo" by (simp add: demo_dims)
  have i0: "0 < timeseries_length demo" "0 < numsol demo" "0 < n_substeps demo"
    by (simp_all add: demo_dims)
  from t[THEN conjunct1, rule_format, OF t1]
    t[THEN conjunct2, THEN conjunct1, rule_format, OF i0(1,2)]
    t[THEN conjunct2, THEN conjunct2, rule_format, OF i0(1,3), THEN conjunct1]
    t[THEN conjunct2, THEN conjunct2, rule_format, OF i0(1,3), THEN conjunct2, rule_format,
      OF i0(2)]
  show ?thesis
    by (simp add: demo_solve demo_dims demo_rows zeros_def)
qed

text \<open>
  Claim C7, as stated: the sum of the cells of \<^verbatim>\<open>pQn\<close> that belong to an output age,
  divided by \<^verbatim>\<open>n_substeps\<close>, equals the increment of the returned \<^verbatim>\<open>PQ[:, i+1, q]\<close> at that
  age. The returned column is the running sum (line 460) of the accumulators that hold
  these sums, and in \<^verbatim>\<open>float64\<close> arithmetic the difference of two rounded partial sums
  need not be the term added. In the run \<open>flat\<close> (one substep, cdf
  \<^verbatim>\<open>[0., 0.4, 0.9, 1.]\<close>) the one cell of age 3 is \<^verbatim>\<open>pQn[2,0] = 0.5\<close>, and the returned
  increment \<^verbatim>\<open>PQ[3,1,0] - PQ[2,1,0]\<close> is \<open>1/2 - 1/2 ^ 54\<close>, printed \<^verbatim>\<open>0.49999999999999994\<close>.
\<close>

theorem C7_increment_differs_in_float64:
  "owned_cells 1 0 3 = [2] \<and>
   fl64 (sum64 (map ((!) flat_pQn) (owned_cells 1 0 3)) / real 1) = 1 / 2 \<and>
   fl64 (flat_PQ ! 3 - flat_PQ ! 2) = 1 / 2 - 1 / 2 ^ 54 \<and>
   fl64 (flat_PQ ! 3 - flat_PQ ! 2) \<noteq> fl64 (sum64 (map ((!) flat_pQn) (owned_cells 1 0 3)) / real 1)"
  unfolding flat_PQ_val flat_pQn_val
  by (simp add: owned_cells_def sum64_def) (simp add: fl64_ranges pow2_def round_even_def Let_def)

text \<open>
  Claim C7, amended. In a run that returns, for every timestep \<open>i\<close> and outflow \<open>q\<close>, the
  column \<^verbatim>\<open>PQ[:, i+1, q]\<close> holds accumulators while the substeps run: they start at zero;
  substep \<open>k\<close> adds to the accumulator of an age \<open>a\<close> from 1 to \<^verbatim>\<open>max_age\<close> the sum of the
  cells of its \<^verbatim>\<open>pQn[:, q]\<close> that belong to \<open>a\<close>, divided by \<^verbatim>\<open>n_substeps\<close> (cells 0 to \<open>k\<close> for
  age 1, the \<^verbatim>\<open>n_substeps\<close> cells from \<open>k + 1 + (a - 2) * n_substeps\<close> on for a later age),
  and leaves entry 0 alone; the returned column is the running sum over the ages of
  the accumulators after the last substep.
\<close>

theorem C7_output_age_accumulators:
  assumes "solve_RK4 p = Inr r" and "ST_init p = Some st0" and "shaped p"
    and "i < timeseries_length p" and "q < numflux p"
  shows
    "PQ (state_at p st0 i 0) ! (i + 1) ! q = zeros (max_age p + 1) \<and>
     (\<forall>k<n_substeps p.
        PQ (state_at p st0 i (Suc k)) ! (i + 1) ! q ! 0 = PQ (state_at p st0 i k) ! (i + 1) ! q ! 0 \<and>
        (\<forall>a. 1 \<le> a \<and> a \<le> max_age p \<longrightarrow>
           PQ (state_at p st0 i (Suc k)) ! (i + 1) ! q ! a =
             PQ (state_at p st0 i k) ! (i + 1) ! q ! a
             + (\<Sum>c\<leftarrow>owned_cells (n_substeps p) k a. pQn_at p st0 i k ! q ! c)
               / real (n_substeps p))) \<and>
     PQ r ! (i + 1) ! q = np_cumsum (PQ (state_at p st0 i (n_substeps p)) ! (i + 1) ! q)"
proof -
  from assms(1) obtain st0'' where f: "ST_init p = Some st0''" "full_outputs p"
    by (rule solve_RK4_Inr)
  from assms(1) f(2) assms(3,4) obtain st0' where s: "ST_init p = Some st0'" "0 < n_substeps p"
    "0 < max_age p"
    "shape_inv p (timesteps p i (init_state p st0'))"
    "shape_inv p (timesteps p (Suc i) (init_state p st0'))"
    "ST r ! i = ST (timesteps p (Suc i) (init_state p st0')) ! i"
    "ST r ! (i + 1) = ST (timesteps p (Suc i) (init_state p st0')) ! (i + 1)"
    "PQ r ! (i + 1) = PQ (timesteps p (Suc i) (init_state p st0')) ! (i + 1)"
    by (rule returned_columns)
  have eq: "st0' = st0" using s(1) assms(2) by simp
  let ?I = "init_state p st0"
  let ?S = "timesteps p i ?I"
  let ?E = "substeps p i (n_substeps p) ?S"
  have invS: "shape_inv p ?S" using s(4) eq by simp
  have invE: "shape_inv p ?E" using assms(3) invS s(3) assms(4) by (rule shape_inv_substeps)
  have start: "PQ (state_at p st0 i 0) ! (i + 1) ! q = zeros (max_age p + 1)"
  proof -
    have "PQ ?S ! (i + 1) = PQ ?I ! (i + 1)"
      using f(2) by (intro timesteps_PQ_later) simp_all
    also have "\<dots> = zeros2 (numflux p) (max_age p + 1)"
      using f(2) assms(4) by (simp add: init_state_fields)
    finally show ?thesis using assms(5) by (simp add: state_at_def)
  qed
  have step: "PQ (state_at p st0 i (Suc k)) ! (i + 1) ! q ! 0
        = PQ (state_at p st0 i k) ! (i + 1) ! q ! 0 \<and>
      (\<forall>a. 1 \<le> a \<and> a \<le> max_age p \<longrightarrow>
         PQ (state_at p st0 i (Suc k)) ! (i + 1) ! q ! a =
           PQ (state_at p st0 i k) ! (i + 1) ! q ! a
           + (\<Sum>c\<leftarrow>owned_cells (n_substeps p) k a. pQn_at p st0 i k ! q ! c)
             / real (n_substeps p))"
    if k: "k < n_substeps p" for k
  proof -
    let ?s = "substeps p i k ?S"
    have inv: "shape_inv p ?s" using assms(3) invS s(3) assms(4) by (rule shape_inv_substeps)
    have len: "i + 1 < length (PQ ?s)" using inv assms(4) f(2) by (simp add: shape_inv_def)
    have col: "PQ (state_at p st0 i (Suc k)) ! (i + 1) ! q =
        fold_ages (n_substeps p) k (max_age p) (pQn_at p st0 i k ! q)
          (PQ (state_at p st0 i k) ! (i + 1) ! q)"
      using f(2) assms(5) len by (simp add: state_at_def pQn_at_def substep_fields)
    have x: "length (pQn_at p st0 i k ! q) = max_age p * n_substeps p"
      using length_pQn_col[OF assms(3) inv assms(5)] by (simp add: M_len_def pQn_at_def state_at_def)
    show ?thesis
      unfolding col using fold_ages_nth[OF k x] by (simp add: fold_ages_0)
  qed
  have final: "PQ r ! (i + 1) ! q = np_cumsum (PQ (state_at p st0 i (n_substeps p)) ! (i + 1) ! q)"
  proof -
    have "PQ r ! (i + 1) = map np_cumsum (PQ ?E ! (i + 1))"
      unfolding s(8) eq
      using timestep_columns(3)[OF assms(3) invS s(3) s(2) assms(4) f(2)] by simp
    moreover have "length (PQ ?E ! (i + 1)) = numflux p"
      using invE f(2) assms(4) by (simp add: shape_inv_def)
    ultimately show ?thesis using assms(5) by (simp add: state_at_def)
  qed
  from start step final show ?thesis by blast
qed

theorem C7_output_age_accumulators_witness:
  "solve_RK4 demo2 = Inr demo2_final \<and>
   PQ (state_at demo2 [0, 1, 2] 0 0) ! 1 ! 0 = [0, 0, 0] \<and>
   PQ (state_at demo2 [0, 1, 2] 0 2) ! 1 ! 0 ! 2 =
     PQ (state_at demo2 [0, 1, 2] 0 1) ! 1 ! 0 ! 2
     + (pQn_at demo2 [0, 1, 2] 0 1 ! 0 ! 2 + pQn_at demo2 [0, 1, 2] 0 1 ! 0 ! 3) / 2 \<and>
   PQ demo2_final ! 1 ! 0 = np_cumsum (PQ (state_at demo2 [0, 1, 2] 0 2) ! 1 ! 0)"
proof -
  have h: "0 < timeseries_length demo2" "0 < numflux demo2"
    by (simp_all add: demo2_dims)
  have k: "1 < n_substeps demo2" by (simp add: demo2_dims)
  have a: "1 \<le> (2 :: nat) \<and> 2 \<le> max_age demo2" by (simp add: demo2_dims)
  note t = C7_output_age_accumulators[OF demo2_solve demo2_rows(4) demo2_shaped h]
  from t[THEN conjunct1]
    t[THEN conjunct2, THEN conjunct1, rule_format, OF k, THEN conjunct2, rule_format, OF a]
    t[THEN conjunct2, THEN conjunct2]
  show ?thesis
    by (simp add: demo2_solve demo2_dims owned_cells_def zeros_def numeral_2_eq_2
          numeral_3_eq_3 upt_conv_Cons)
qed

text \<open>
  Claim C8. When the solver returns with full outputs, the water balance of timestep \<open>i\<close>
  is, at age 0, \<^verbatim>\<open>J[i]*dt - ST[1,i+1] - dt * sum_q Q[i,q] * (PQ[1,i+1,q] - PQ[0,i+1,q])\<close>, and
  at an age \<open>a\<close> from 1 to \<open>max_age - 1\<close> the increment of storage at age \<open>a\<close> and time
  \<open>i\<close>, minus the increment at age \<open>a + 1\<close> and time \<open>i + 1\<close>, minus \<^verbatim>\<open>dt\<close> times the sum
  over the outflows of \<^verbatim>\<open>Q[i,q]\<close> times the increment of \<^verbatim>\<open>PQ\<close> at age \<open>a + 1\<close> and time
  \<open>i + 1\<close>.
\<close>

theorem C8_water_balance:
  assumes "solve_RK4 p = Inr r" and "full_outputs p" and "shaped p"
    and "i < timeseries_length p"
  shows
    "WaterBalance r ! i ! 0 =
       J p ! i * dt p - ST r ! (i + 1) ! 1
       - dt p * (\<Sum>q\<leftarrow>[0..<numflux p].
                   Q p ! i ! q * (PQ r ! (i + 1) ! q ! 1 - PQ r ! (i + 1) ! q ! 0)) \<and>
     (\<forall>a. 1 \<le> a \<and> a < max_age p \<longrightarrow>
        WaterBalance r ! i ! a =
          (ST r ! i ! a - ST r ! i ! (a - 1)) - (ST r ! (i + 1) ! (a + 1) - ST r ! (i + 1) ! a)
          - dt p * (\<Sum>q\<leftarrow>[0..<numflux p].
                      Q p ! i ! q * (PQ r ! (i + 1) ! q ! (a + 1) - PQ r ! (i + 1) ! q ! a)))"
proof -
  from assms obtain st0 where s: "ST_init p = Some st0" "0 < n_substeps p" "0 < max_age p"
    "shape_inv p (timesteps p i (init_state p st0))"
    "shape_inv p (timesteps p (Suc i) (init_state p st0))"
    "ST r ! i = ST (timesteps p (Suc i) (init_state p st0)) ! i"
    "ST r ! (i + 1) = ST (timesteps p (Suc i) (init_state p st0)) ! (i + 1)"
    "PQ r ! (i + 1) = PQ (timesteps p (Suc i) (init_state p st0)) ! (i + 1)"
    "WaterBalance r ! i = WaterBalance (timesteps p (Suc i) (init_state p st0)) ! i"
    by (rule returned_columns)
  let ?S = "timesteps p i (init_state p st0)"
  let ?S' = "timesteps p (Suc i) (init_state p st0)"
  have S': "?S' = timestep p i ?S" by simp
  have Qlen: "length (Q p ! i) = numflux p"
    using assms(3,4) by (simp add: shaped_def timeseries_length_def)
  have wb: "WaterBalance r ! i =
      water_balance (max_age p) (dt p) (J p ! i) (Q p ! i) (ST r ! i) (ST r ! (i + 1))
        (PQ r ! (i + 1))"
    unfolding s(6-9) S'
    using timestep_columns(4)[OF assms(3) s(4) s(3) s(2) assms(4) assms(2)] .
  have lens: "length (ST r ! i) = max_age p + 1" "length (ST r ! (i + 1)) = max_age p + 1"
    "length (PQ r ! (i + 1)) = numflux p"
    "\<And>q. q < numflux p \<Longrightarrow> length (PQ r ! (i + 1) ! q) = max_age p + 1"
    unfolding s(6-8) using s(5) assms(2,4) by (simp_all add: shape_inv_def)
  have zero: "WaterBalance r ! i ! 0 =
       J p ! i * dt p - ST r ! (i + 1) ! 1
       - dt p * (\<Sum>q\<leftarrow>[0..<numflux p].
                   Q p ! i ! q * (PQ r ! (i + 1) ! q ! 1 - PQ r ! (i + 1) ! q ! 0))"
    unfolding wb water_balance_0 Qlen ..
  have rest: "WaterBalance r ! i ! a =
          (ST r ! i ! a - ST r ! i ! (a - 1)) - (ST r ! (i + 1) ! (a + 1) - ST r ! (i + 1) ! a)
          - dt p * (\<Sum>q\<leftarrow>[0..<numflux p].
                      Q p ! i ! q * (PQ r ! (i + 1) ! q ! (a + 1) - PQ r ! (i + 1) ! q ! a))"
    if a: "1 \<le> a" "a < max_age p" for a
  proof -
    obtain b where b: "a = Suc b" using a(1) by (cases a) auto
    have "Suc b < max_age p" using a(2) b by simp
    from water_balance_Suc[OF this lens(1,2), of "Q p ! i" "PQ r ! (i + 1)" "dt p" "J p ! i"]
    show ?thesis
      unfolding wb b using lens(3,4) Qlen by simp
  qed
  from zero rest show ?thesis by blast
qed

theorem C8_water_balance_witness:
  "solve_RK4 demo2 = Inr demo2_final \<and>
   WaterBalance demo2_final ! 0 ! 1 =
     (ST demo2_final ! 0 ! 1 - ST demo2_final ! 0 ! 0)
     - (ST demo2_final ! 1 ! 2 - ST demo2_final ! 1 ! 1)
     - 1 * (1 / 2 * (PQ demo2_final ! 1 ! 0 ! 2 - PQ demo2_final ! 1 ! 0 ! 1))"
proof -
  have h: "0 < timeseries_length demo2" by (simp add: demo2_dims)
  have a: "1 \<le> (1 :: nat) \<and> 1 < max_age demo2" by (simp add: demo2_dims)
  note t = C8_water_balance[OF demo2_solve demo2_dims(8) demo2_shaped h]
  from t[THEN conjunct2, rule_format, OF a]
  show ?thesis by (simp add: demo2_solve demo2_dims demo2_rows numeral_2_eq_2)
qed

section \<open>Claims about arguments and initial conditions\<close>

text \<open>
  Claim C9. The solver is to return a result for every configuration that \<^verbatim>\<open>solve\<close>
  accepts, also when the initial storage \<^verbatim>\<open>ST_init\<close> or the concentration \<^verbatim>\<open>C_old\<close> is left
  out. \<^verbatim>\<open>solve\<close> passes a missing \<^verbatim>\<open>ST_init\<close> on as \<^verbatim>\<open>None\<close>, and \<^verbatim>\<open>len(ST_init)\<close> at
  line 294 fails; with solutes and full outputs a missing \<^verbatim>\<open>C_old\<close> is read at line 471.
  The run \<open>demo\<close> returns a result, and returns none once either argument is left out.
\<close>

theorem C9_missing_optional_arguments:
  "solve_RK4 demo = Inr demo_final \<and>
   solve_RK4 (demo\<lparr>ST_init := None\<rparr>) = Inl TypeError \<and>
   solve_RK4 (demo\<lparr>C_old := None\<rparr>) = Inl NoneAccess"
  by (simp add: demo_solve) (simp add: solve_RK4_def demo_def numsol_def numflux_def
        timeseries_length_def)

text \<open>
  Claim C10, as stated: the first column of \<^verbatim>\<open>ST\<close> equals \<^verbatim>\<open>ST_init\<close> exactly, for every
  initial profile and every \<^verbatim>\<open>n_substeps\<close>. The column is computed, by dividing running
  sums of the repeated increments, in \<^verbatim>\<open>float64\<close> arithmetic. For
  \<^verbatim>\<open>ST_init = np.array([0., 0.1])\<close> and \<^verbatim>\<open>n_substeps = 3\<close> the running sum \<^verbatim>\<open>0.1 + 0.1 + 0.1\<close> is
  rounded, and so is its third: \<^verbatim>\<open>ST[1,0]\<close> is \<open>7205759403792795 / 2 ^ 56\<close>, printed
  \<^verbatim>\<open>0.10000000000000002\<close>, one unit in the last place above \<^verbatim>\<open>ST_init[1]\<close>.
\<close>

theorem C10_round_trip_inexact_in_float64:
  "fl64 (1 / 10) = 7205759403792794 / 2 ^ 56 \<and>
   first_column64 3 [0, fl64 (1 / 10)] = [0, 7205759403792795 / 2 ^ 56] \<and>
   first_column64 3 [0, fl64 (1 / 10)] \<noteq> [0, fl64 (1 / 10)]"
proof -
  have a: "first_column64 3 [0, fl64 (1 / 10)] = [0, 7205759403792795 / 2 ^ 56]"
    by (rule tenth_first_column)
  have b: "fl64 (1 / 10) = 7205759403792794 / 2 ^ 56"
    by (simp add: tenth_val)
  have c: "first_column64 3 [0, fl64 (1 / 10)] \<noteq> [0, fl64 (1 / 10)]"
    unfolding a unfolding b by simp
  from b a c show ?thesis by (intro conjI)
qed

text \<open>
  Claim C10, amended. In a run that returns, the first column of \<^verbatim>\<open>ST\<close> has
  \<^verbatim>\<open>max_age + 1\<close> entries, its entry 0 is 0, and its entry at an age \<open>a\<close> from 1 to \<^verbatim>\<open>max_age\<close>
  is entry \<open>a * n_substeps - 1\<close> of \<^verbatim>\<open>np.cumsum(np.diff(ST_init).repeat(n_substeps))\<close>
  divided by \<^verbatim>\<open>n_substeps\<close>: the running sum of the first \<open>a * n_substeps\<close> repeated
  increments, divided by \<^verbatim>\<open>n_substeps\<close>. No timestep writes the column again.
\<close>

theorem C10_first_column_is_sampled_refinement:
  assumes "solve_RK4 p = Inr r" and "ST_init p = Some st0"
  shows
    "length (ST r ! 0) = max_age p + 1 \<and> ST r ! 0 ! 0 = 0 \<and>
     (\<forall>a. 1 \<le> a \<and> a \<le> max_age p \<longrightarrow>
        ST r ! 0 ! a =
          np_cumsum (np_repeat (n_substeps p) (np_diff st0)) ! (a * n_substeps p - 1)
          / real (n_substeps p))"
proof -
  from assms(1) obtain st0' where s: "ST_init p = Some st0'" "st0' \<noteq> []" "0 < n_substeps p"
    by (rule solve_RK4_Inr)
  with assms(2) have ne: "st0 \<noteq> []" by simp
  let ?n = "n_substeps p"
  have col: "ST r ! 0 = strided ?n (init_STn ?n st0)"
    using assms by (rule first_column_sampled)
  have mx: "max_age p = length st0 - 1" using assms(2) by (simp add: max_age_def)
  have len: "length (init_STn ?n st0) = max_age p * ?n + 1"
    by (simp add: mx mult.commute)
  have nth: "ST r ! 0 ! a = init_STn ?n st0 ! (a * ?n)" if "a \<le> max_age p" for a
    unfolding col using s(3) len that by (rule nth_strided)
  have 1: "length (ST r ! 0) = max_age p + 1"
    unfolding col using s(3) len by (rule length_strided)
  have 2: "ST r ! 0 ! 0 = 0" using nth[of 0] by (simp add: init_STn_def)
  have 3: "ST r ! 0 ! a =
      np_cumsum (np_repeat ?n (np_diff st0)) ! (a * ?n - 1) / real ?n"
    if a: "1 \<le> a \<and> a \<le> max_age p" for a
  proof -
    obtain j where j: "a * ?n = Suc j" using s(3) a by (cases "a * ?n") auto
    have "a * ?n \<le> (length st0 - 1) * ?n" using a mx by (intro mult_le_mono1) simp
    then have lt: "j < ?n * (length st0 - 1)" using j by (simp add: mult.commute)
    have "ST r ! 0 ! a = init_STn ?n st0 ! Suc j" using nth a j by simp
    also have "\<dots> = np_cumsum (np_repeat ?n (np_diff st0)) ! j / real ?n"
      using lt by (simp add: init_STn_def)
    finally show ?thesis using j by simp
  qed
  from 1 2 3 show ?thesis by blast
qed

theorem C10_first_column_is_sampled_refinement_witness:
  "solve_RK4 demo2 = Inr demo2_final \<and> length (ST demo2_final ! 0) = 3 \<and>
   ST demo2_final ! 0 ! 0 = 0 \<and> ST demo2_final ! 0 ! 2 = (1 + 1 + 1 + 1) / 2"
proof -
  have a: "1 \<le> (2 :: nat) \<and> 2 \<le> max_age demo2" by (simp add: demo2_dims)
  note t = C10_first_column_is_sampled_refinement[OF demo2_solve demo2_rows(4)]
  from t[THEN conjunct1] t[THEN conjunct2, THEN conjunct1]
    t[THEN conjunct2, THEN conjunct2, rule_format, OF a]
  show ?thesis
    by (simp add: demo2_solve demo2_dims np_repeat_def np_cumsum_def numeral_2_eq_2)
qed

end
